theory Spec2Isabelle
  imports Complex_Main "HOL-Library.Multiset"
begin

text \<open>
  A shallow embedding of the aggregation and presentation pipeline of ClawdForDummies:
  the result normalizer and the finding utilities of the GUI, the findings views, the
  input validation and the scanner handlers of the Electron main process, and the risk
  scoring. Each definition follows the source function of the same name.
\<close>

section \<open>JavaScript strings and numbers\<close>

text \<open>
  Strings are modelled as HOL strings (lists of 8-bit characters) and read as ASCII text:
  \<open>toUpperCase\<close>, \<open>toLowerCase\<close> and \<open>trim\<close> act on the ASCII letters and the ASCII
  white space and leave every other character alone. A JavaScript \<open>number\<close> is modelled
  as a real (exact arithmetic instead of IEEE doubles). An optional property, and a
  property holding \<open>null\<close> or \<open>undefined\<close>, is \<open>None\<close>; the operator \<open>a ?? b\<close> is
  \<open>nullish a b\<close>.
\<close>

type_synonym number = real

definition lower_letters :: string where
  "lower_letters = ''abcdefghijklmnopqrstuvwxyz''"

definition upper_letters :: string where
  "upper_letters = ''ABCDEFGHIJKLMNOPQRSTUVWXYZ''"

definition digits :: string where
  "digits = ''0123456789''"

definition toUpperCase_char :: "char \<Rightarrow> char" where
  "toUpperCase_char c =
     (case map_of (zip lower_letters upper_letters) c of Some u \<Rightarrow> u | None \<Rightarrow> c)"

definition toLowerCase_char :: "char \<Rightarrow> char" where
  "toLowerCase_char c =
     (case map_of (zip upper_letters lower_letters) c of Some l \<Rightarrow> l | None \<Rightarrow> c)"

definition toUpperCase :: "string \<Rightarrow> string" where
  "toUpperCase s = map toUpperCase_char s"

definition toLowerCase :: "string \<Rightarrow> string" where
  "toLowerCase s = map toLowerCase_char s"

text \<open>The ASCII white space that \<open>String.prototype.trim\<close> removes: TAB, LF, VT, FF, CR, SPACE.\<close>

definition white_space :: "char \<Rightarrow> bool" where
  "white_space c = (c \<in> set [CHR 0x09, CHR 0x0A, CHR 0x0B, CHR 0x0C, CHR 0x0D, CHR 0x20])"

definition trim :: "string \<Rightarrow> string" where
  "trim s = rev (dropWhile white_space (rev (dropWhile white_space s)))"

text \<open>\<open>s.startsWith(sub)\<close>, used by the two searches below.\<close>

definition startsWith :: "string \<Rightarrow> string \<Rightarrow> bool" where
  "startsWith s sub = (take (length sub) s = sub)"

text \<open>\<open>s.indexOf(sub)\<close>: the index of the first occurrence, or \<open>-1\<close>.\<close>

fun indexOf :: "string \<Rightarrow> string \<Rightarrow> int" where
  "indexOf [] sub = (if sub = [] then 0 else - 1)"
| "indexOf (c # cs) sub =
     (if startsWith (c # cs) sub then 0
      else (let r = indexOf cs sub in if r = - 1 then - 1 else r + 1))"

text \<open>\<open>s.includes(sub)\<close> on strings.\<close>

fun includes_str :: "string \<Rightarrow> string \<Rightarrow> bool" where
  "includes_str [] sub = (sub = [])"
| "includes_str (c # cs) sub = (startsWith (c # cs) sub \<or> includes_str cs sub)"

text \<open>\<open>s.substring(i)\<close> and \<open>s.substring(0, i)\<close> for an index \<open>i \<ge> 0\<close>.\<close>

definition substring_from :: "string \<Rightarrow> int \<Rightarrow> string" where
  "substring_from s i = drop (nat i) s"

definition substring_to :: "string \<Rightarrow> int \<Rightarrow> string" where
  "substring_to s i = take (nat i) s"

definition nullish :: "'a option \<Rightarrow> 'a option \<Rightarrow> 'a option" where
  "nullish a b = (case a of Some v \<Rightarrow> Some v | None \<Rightarrow> b)"

definition nullish_default :: "'a option \<Rightarrow> 'a \<Rightarrow> 'a" where
  "nullish_default a d = (case a of Some v \<Rightarrow> v | None \<Rightarrow> d)"

text \<open>An argument typed \<open>unknown\<close> that the code tests with \<open>Array.isArray\<close>.\<close>

datatype 'a unknown_array = NotAnArray | IsArray "'a list"

section \<open>The canonical data model (types/finding.ts, types/scan.ts)\<close>

datatype Severity = CRITICAL | HIGH | MEDIUM | LOW | INFO

datatype Category =
  PORT_EXPOSURE | AUTHENTICATION | CREDENTIALS | CONFIGURATION | PERMISSIONS | NETWORK

datatype RiskLevel = RISK_CRITICAL | RISK_HIGH | RISK_MEDIUM | RISK_LOW | SAFE

record RemediationStep =
  step :: number
  instruction :: string
  code :: "string option"
  filePath :: "string option"

record Finding =
  id_field :: string
  title :: string
  description :: string
  severity :: Severity
  category :: Category
  cvssScore :: number
  location :: "string option"
  remediation :: string
  remediationSteps :: "RemediationStep list"
  references :: "string list"

record SystemInfo =
  platform :: string
  platformDisplay :: string
  pythonVersion :: string
  username :: string
  isAdmin :: bool
  localIps :: "string list"

record ScanResult =
  scanId :: string
  timestamp :: string
  durationSeconds :: number
  findings :: "Finding list"
  systemInfo :: SystemInfo
  overallRiskScore :: number
  riskLevel :: RiskLevel
  criticalCount :: number
  highCount :: number
  mediumCount :: number
  lowCount :: number
  infoCount :: number

text \<open>
  The string literals of the three enumerations, in the order the source lists them;
  \<open>normalized as Severity\<close> after the \<open>includes\<close> test is the lookup in the table.
\<close>

definition severity_names :: "(string \<times> Severity) list" where
  "severity_names =
     [(''CRITICAL'', CRITICAL), (''HIGH'', HIGH), (''MEDIUM'', MEDIUM), (''LOW'', LOW),
      (''INFO'', INFO)]"

definition risk_level_names :: "(string \<times> RiskLevel) list" where
  "risk_level_names =
     [(''CRITICAL'', RISK_CRITICAL), (''HIGH'', RISK_HIGH), (''MEDIUM'', RISK_MEDIUM),
      (''LOW'', RISK_LOW), (''SAFE'', SAFE)]"

definition validCategories :: "(string \<times> Category) list" where
  "validCategories =
     [(''PORT_EXPOSURE'', PORT_EXPOSURE), (''AUTHENTICATION'', AUTHENTICATION),
      (''CREDENTIALS'', CREDENTIALS), (''CONFIGURATION'', CONFIGURATION),
      (''PERMISSIONS'', PERMISSIONS), (''NETWORK'', NETWORK)]"

section \<open>The result normalizer (utils/scanResultNormalizer.ts)\<close>

text \<open>
  \<open>normalizeRiskLevelString\<close>: upper-case the string; if the result is one of the five
  names return it, else \<open>SAFE\<close>.
\<close>

definition normalizeRiskLevelString :: "string \<Rightarrow> RiskLevel" where
  "normalizeRiskLevelString level =
     (let normalized = toUpperCase level in
      if normalized \<in> set (map fst risk_level_names)
      then the (map_of risk_level_names normalized)
      else SAFE)"

text \<open>\<open>normalizeSeverity\<close>: \<open>!severity\<close> holds for \<open>undefined\<close> and for the empty string.\<close>

definition normalizeSeverity :: "string option \<Rightarrow> Severity" where
  "normalizeSeverity sev =
     (case sev of
        None \<Rightarrow> INFO
      | Some s \<Rightarrow>
          if s = [] then INFO
          else (let normalized = toUpperCase s in
                if normalized \<in> set (map fst severity_names)
                then the (map_of severity_names normalized)
                else INFO))"

definition normalizeCategory :: "string option \<Rightarrow> Category" where
  "normalizeCategory cat =
     (case cat of
        None \<Rightarrow> CONFIGURATION
      | Some s \<Rightarrow>
          if s = [] then CONFIGURATION
          else (let normalized = toUpperCase s in
                if normalized \<in> set (map fst validCategories)
                then the (map_of validCategories normalized)
                else CONFIGURATION))"

text \<open>
  \<open>normalizeRiskLevel\<close> of types/scan.ts tests \<open>normalized in RISK_LEVEL_CONFIG\<close>. The
  keys of that object are the five names; the properties it inherits from
  \<open>Object.prototype\<close> all contain a lower-case letter, so an upper-cased string is never
  one of them and the test is membership in the five keys.
\<close>

definition normalizeRiskLevel :: "string option \<Rightarrow> RiskLevel" where
  "normalizeRiskLevel lvl =
     (case lvl of
        None \<Rightarrow> SAFE
      | Some s \<Rightarrow>
          if s = [] then SAFE
          else (let normalized = toUpperCase s in
                if normalized \<in> set (map fst risk_level_names)
                then the (map_of risk_level_names normalized)
                else SAFE))"

record RawRemediationStep =
  raw_step :: "number option"
  raw_instruction :: "string option"
  raw_code :: "string option"
  raw_file_path :: "string option"
  raw_filePath :: "string option"

datatype RawStep = StepString string | StepObject RawRemediationStep

text \<open>One element of \<open>rawSteps.map((s, index) => ...)\<close>.\<close>

definition normalizeRemediationStep :: "RawStep \<Rightarrow> nat \<Rightarrow> RemediationStep" where
  "normalizeRemediationStep s index =
     (case s of
        StepString str \<Rightarrow>
          (let colonIndex = indexOf str '': '' in
           if colonIndex > - 1 \<and> colonIndex < 50 then
             (let instr = substring_to str colonIndex;
                  cmd = trim (substring_from str (colonIndex + 2)) in
              \<lparr>step = real (index + 1), instruction = instr,
               code = (if length cmd > 0 then Some cmd else None), filePath = None\<rparr>)
           else
             \<lparr>step = real (index + 1), instruction = str, code = None, filePath = None\<rparr>)
      | StepObject rawStep \<Rightarrow>
          \<lparr>step = nullish_default (raw_step rawStep) (real (index + 1)),
           instruction = nullish_default (raw_instruction rawStep) [],
           code = raw_code rawStep,
           filePath = nullish (raw_file_path rawStep) (raw_filePath rawStep)\<rparr>)"

definition normalizeRemediationSteps :: "RawStep unknown_array \<Rightarrow> RemediationStep list" where
  "normalizeRemediationSteps rawSteps =
     (case rawSteps of
        NotAnArray \<Rightarrow> []
      | IsArray steps \<Rightarrow>
          map (\<lambda>(s, index). normalizeRemediationStep s index) (zip steps [0 ..< length steps]))"

record RawSystemInfo =
  rsi_platform :: "string option"
  rsi_platform_display :: "string option"
  rsi_python_version :: "string option"
  rsi_username :: "string option"
  rsi_is_admin :: "bool option"
  rsi_local_ips :: "string list option"
  rsi_platformDisplay :: "string option"
  rsi_pythonVersion :: "string option"
  rsi_isAdmin :: "bool option"
  rsi_localIps :: "string list option"

record RawFinding =
  rf_id :: "string option"
  rf_title :: "string option"
  rf_description :: "string option"
  rf_severity :: "string option"
  rf_category :: "string option"
  rf_cvss_score :: "number option"
  rf_location :: "string option"
  rf_remediation :: "string option"
  rf_remediation_steps :: "RawStep list option"
  rf_references :: "string list option"
  rf_reference_links :: "string list option"
  rf_cvssScore :: "number option"
  rf_remediationSteps :: "RawStep list option"

record RawSummary =
  critical_count :: "number option"
  high_count :: "number option"
  medium_count :: "number option"
  low_count :: "number option"
  info_count :: "number option"

record RawScanResult =
  raw_scan_id :: "string option"
  raw_timestamp :: "string option"
  raw_duration_seconds :: "number option"
  raw_findings :: "RawFinding list option"
  raw_system_info :: "RawSystemInfo option"
  raw_overall_risk_score :: "number option"
  raw_risk_level :: "string option"
  raw_summary :: "RawSummary option"
  raw_scanId :: "string option"
  raw_durationSeconds :: "number option"
  raw_systemInfo :: "RawSystemInfo option"
  raw_overallRiskScore :: "number option"
  raw_riskLevel :: "string option"
  raw_criticalCount :: "number option"
  raw_highCount :: "number option"
  raw_mediumCount :: "number option"
  raw_lowCount :: "number option"
  raw_infoCount :: "number option"

text \<open>Optional chaining \<open>obj?.field\<close>.\<close>

definition opt_chain :: "'a option \<Rightarrow> ('a \<Rightarrow> 'b option) \<Rightarrow> 'b option" where
  "opt_chain obj field = (case obj of None \<Rightarrow> None | Some v \<Rightarrow> field v)"

text \<open>The object literal built for each element of \<open>raw.findings\<close>.\<close>

definition normalizeFinding :: "RawFinding \<Rightarrow> Finding" where
  "normalizeFinding f =
     \<lparr>id_field = nullish_default (rf_id f) ''unknown'',
      title = nullish_default (rf_title f) ''Unknown Finding'',
      description = nullish_default (rf_description f) [],
      severity = normalizeSeverity (rf_severity f),
      category = normalizeCategory (rf_category f),
      cvssScore = nullish_default (nullish (rf_cvss_score f) (rf_cvssScore f)) 0,
      location = rf_location f,
      remediation = nullish_default (rf_remediation f) [],
      remediationSteps =
        normalizeRemediationSteps
          (IsArray (nullish_default (nullish (rf_remediation_steps f) (rf_remediationSteps f)) [])),
      references = nullish_default (nullish (rf_references f) (rf_reference_links f)) []\<rparr>"

text \<open>
  \<open>normalizeScanResult\<close>. The first argument is the value of
  \<open>new Date().toISOString()\<close> at the call, used when the raw object has no timestamp.
\<close>

definition normalizeScanResult :: "string \<Rightarrow> RawScanResult \<Rightarrow> ScanResult" where
  "normalizeScanResult now raw =
     (let si = raw_system_info raw; sI = raw_systemInfo raw;
          sysInfo =
            \<lparr>platform =
               nullish_default (nullish (opt_chain si rsi_platform) (opt_chain sI rsi_platform))
                 ''unknown'',
             platformDisplay =
               nullish_default
                 (nullish (opt_chain si rsi_platform_display)
                    (nullish (opt_chain si rsi_platformDisplay) (opt_chain sI rsi_platformDisplay)))
                 ''Unknown Platform'',
             pythonVersion =
               nullish_default
                 (nullish (opt_chain si rsi_python_version)
                    (nullish (opt_chain si rsi_pythonVersion) (opt_chain sI rsi_pythonVersion)))
                 ''N/A'',
             username =
               nullish_default (nullish (opt_chain si rsi_username) (opt_chain sI rsi_username))
                 ''unknown'',
             isAdmin =
               nullish_default
                 (nullish (opt_chain si rsi_is_admin)
                    (nullish (opt_chain si rsi_isAdmin) (opt_chain sI rsi_isAdmin)))
                 False,
             localIps =
               nullish_default
                 (nullish (opt_chain si rsi_local_ips)
                    (nullish (opt_chain si rsi_localIps) (opt_chain sI rsi_localIps)))
                 []\<rparr>;
          fs = map normalizeFinding (nullish_default (raw_findings raw) []);
          critical =
            nullish_default (nullish (opt_chain (raw_summary raw) critical_count) (raw_criticalCount raw)) 0;
          high =
            nullish_default (nullish (opt_chain (raw_summary raw) high_count) (raw_highCount raw)) 0;
          medium =
            nullish_default (nullish (opt_chain (raw_summary raw) medium_count) (raw_mediumCount raw)) 0;
          low =
            nullish_default (nullish (opt_chain (raw_summary raw) low_count) (raw_lowCount raw)) 0;
          info =
            nullish_default (nullish (opt_chain (raw_summary raw) info_count) (raw_infoCount raw)) 0
      in
      \<lparr>scanId = nullish_default (nullish (raw_scan_id raw) (raw_scanId raw)) ''unknown'',
       timestamp = nullish_default (raw_timestamp raw) now,
       durationSeconds =
         nullish_default (nullish (raw_duration_seconds raw) (raw_durationSeconds raw)) 0,
       findings = fs,
       systemInfo = sysInfo,
       overallRiskScore =
         nullish_default (nullish (raw_overall_risk_score raw) (raw_overallRiskScore raw)) 0,
       riskLevel =
         normalizeRiskLevelString
           (nullish_default (nullish (raw_risk_level raw) (raw_riskLevel raw)) ''safe''),
       criticalCount = critical,
       highCount = high,
       mediumCount = medium,
       lowCount = low,
       infoCount = info\<rparr>)"

section \<open>Finding utilities and the two findings views\<close>

definition PRIORITY_FINDING_ID :: string where
  "PRIORITY_FINDING_ID = ''CLAWD-INSTALL-001''"

fun SEVERITY_PRIORITY :: "Severity \<Rightarrow> nat" where
  "SEVERITY_PRIORITY CRITICAL = 0"
| "SEVERITY_PRIORITY HIGH = 1"
| "SEVERITY_PRIORITY MEDIUM = 2"
| "SEVERITY_PRIORITY LOW = 3"
| "SEVERITY_PRIORITY INFO = 4"

definition isPriorityFinding :: "Finding \<Rightarrow> bool" where
  "isPriorityFinding finding =
     (id_field finding = PRIORITY_FINDING_ID \<or>
      includes_str (toLowerCase (title finding)) ''not installed'' \<or>
      includes_str (toLowerCase (title finding)) ''not configured'')"

text \<open>
  \<open>Array.prototype.sort\<close> with the comparator
  \<open>SEVERITY_PRIORITY[a.severity] - SEVERITY_PRIORITY[b.severity]\<close> is a stable sort on
  that key (ECMAScript 2019), here the stable insertion sort \<open>sort_key\<close>.
\<close>

definition sortFindingsForDevView :: "Finding list \<Rightarrow> Finding list" where
  "sortFindingsForDevView fs =
     (let priority = filter isPriorityFinding fs;
          regular = filter (\<lambda>f. \<not> isPriorityFinding f) fs;
          sortedRegular = sort_key (\<lambda>f. SEVERITY_PRIORITY (severity f)) regular
      in priority @ sortedRegular)"

text \<open>\<open>groupFindingsBySeverity\<close>: five empty groups, then one \<open>push\<close> per finding.\<close>

definition groupFindingsBySeverity :: "Finding list \<Rightarrow> Severity \<Rightarrow> Finding list" where
  "groupFindingsBySeverity fs =
     foldl (\<lambda>groups finding. groups(severity finding := groups (severity finding) @ [finding]))
       (\<lambda>_. []) fs"

definition SEVERITY_ORDER :: "Severity list" where
  "SEVERITY_ORDER = [CRITICAL, HIGH, MEDIUM, LOW, INFO]"

datatype severity_filter = ALL_FILTER | Only Severity

datatype ScanStatus = idle | scanning | complete | error

text \<open>
  What a findings view renders below its header, top to bottom: a priority alert for
  one finding, the "no findings" message, or a severity group with its cards.
\<close>

datatype view_block =
  PriorityAlert Finding | NoFindingsMessage | SeverityGroup Severity "Finding list"

definition applyFilter :: "severity_filter \<Rightarrow> Finding list \<Rightarrow> Finding list" where
  "applyFilter filterSeverity allFindings =
     (case filterSeverity of
        ALL_FILTER \<Rightarrow> allFindings
      | Only s \<Rightarrow> filter (\<lambda>f. severity f = s) allFindings)"

text \<open>\<open>SEVERITY_ORDER.map(...)\<close> with the \<open>null\<close> entries (empty groups) left out.\<close>

definition severity_groups :: "(Severity \<Rightarrow> Finding list) \<Rightarrow> view_block list" where
  "severity_groups grouped =
     concat (map (\<lambda>s. if grouped s = [] then [] else [SeverityGroup s (grouped s)]) SEVERITY_ORDER)"

text \<open>
  \<open>DevFindingsDisplay\<close> (developer view): nothing unless the scan is complete and has
  a result; else the priority alerts, the "no findings" message when the filtered list is
  empty, and the groups of the regular findings.
\<close>

definition DevFindingsDisplay ::
  "ScanStatus \<Rightarrow> ScanResult option \<Rightarrow> severity_filter \<Rightarrow> view_block list option" where
  "DevFindingsDisplay status scanResult filterSeverity =
     (case scanResult of
        None \<Rightarrow> None
      | Some res \<Rightarrow>
          if status \<noteq> complete then None
          else
            (let filteredFindings = applyFilter filterSeverity (findings res);
                 priorityFindings = filter isPriorityFinding filteredFindings;
                 regularFindings = filter (\<lambda>f. \<not> isPriorityFinding f) filteredFindings;
                 groupedFindings = groupFindingsBySeverity regularFindings
             in Some (map PriorityAlert priorityFindings @
                      (if filteredFindings = [] then [NoFindingsMessage] else []) @
                      severity_groups groupedFindings)))"

text \<open>
  \<open>UserFindingsDisplay\<close> (friendly view): the "no findings" card, the priority alerts,
  then each group of the filtered findings with the priority findings filtered out.
\<close>

definition UserFindingsDisplay ::
  "ScanStatus \<Rightarrow> ScanResult option \<Rightarrow> severity_filter \<Rightarrow> view_block list option" where
  "UserFindingsDisplay status scanResult filterSeverity =
     (case scanResult of
        None \<Rightarrow> None
      | Some res \<Rightarrow>
          if status \<noteq> complete then None
          else
            (let filteredFindings = applyFilter filterSeverity (findings res);
                 groupedFindings = groupFindingsBySeverity filteredFindings;
                 priorityFindings = filter isPriorityFinding filteredFindings
             in Some ((if filteredFindings = [] then [NoFindingsMessage] else []) @
                      map PriorityAlert priorityFindings @
                      severity_groups
                        (\<lambda>s. filter (\<lambda>f. \<not> isPriorityFinding f) (groupedFindings s)))))"

section \<open>The main process (electron/main.cjs)\<close>

subsection \<open>Validation of the module list\<close>

definition ALLOWED_MODULES :: "string set" where
  "ALLOWED_MODULES =
     {''port'', ''credential'', ''config'', ''process'', ''permission'', ''network'', ''clawdbot''}"

text \<open>An element of the array received over IPC: a string, or a value of another type.\<close>

datatype ipc_value = JString string | JOther

datatype validation_error =
  ModulesNotArray | ModuleNotString | InvalidModule string | NoValidModule

text \<open>\<open>module.toLowerCase().replace(/[^a-z0-9_]/g, '')\<close>\<close>

definition sanitize_module :: "string \<Rightarrow> string" where
  "sanitize_module m = filter (\<lambda>c. c \<in> set (lower_letters @ digits @ ''_'')) (toLowerCase m)"

text \<open>The \<open>for\<close> loop of \<open>validateModules\<close>; a \<open>throw\<close> is the value \<open>Inl\<close>.\<close>

fun validate_loop :: "ipc_value list \<Rightarrow> string list \<Rightarrow> validation_error + string list" where
  "validate_loop [] validated = Inr validated"
| "validate_loop (JOther # ms) validated = Inl ModuleNotString"
| "validate_loop (JString m # ms) validated =
     (let sanitized = sanitize_module m in
      if sanitized \<notin> ALLOWED_MODULES then Inl (InvalidModule sanitized)
      else validate_loop ms (validated @ [sanitized]))"

definition validateModules :: "ipc_value unknown_array \<Rightarrow> validation_error + string list" where
  "validateModules modules =
     (case modules of
        NotAnArray \<Rightarrow> Inl ModulesNotArray
      | IsArray ms \<Rightarrow>
          (case validate_loop ms [] of
             Inl e \<Rightarrow> Inl e
           | Inr validated \<Rightarrow> if length validated = 0 then Inl NoValidModule else Inr validated))"

subsection \<open>Validation of the export options\<close>

text \<open>\<open>.replace(/\.\./g, '')\<close>: one pass, left to right, over non-overlapping matches.\<close>

fun remove_dotdot :: "string \<Rightarrow> string" where
  "remove_dotdot (a # b # cs) =
     (if a = CHR ''.'' \<and> b = CHR ''.'' then remove_dotdot cs else a # remove_dotdot (b # cs))"
| "remove_dotdot cs = cs"

text \<open>The characters of the class \<open>[<>:"|?*\\/]\<close>.\<close>

definition reserved_chars :: string where
  "reserved_chars = ''<>:'' @ [CHR 0x22] @ ''|?*'' @ [CHR 0x5C] @ ''/''"

definition remove_reserved :: "string \<Rightarrow> string" where
  "remove_reserved s = filter (\<lambda>c. c \<notin> set reserved_chars) s"

text \<open>\<open>.replace(/^[A-Za-z]:/g, '')\<close>\<close>

fun remove_drive_letter :: "string \<Rightarrow> string" where
  "remove_drive_letter (a # b # cs) =
     (if a \<in> set (upper_letters @ lower_letters) \<and> b = CHR '':'' then cs else a # b # cs)"
| "remove_drive_letter cs = cs"

text \<open>\<open>.replace(/^\//, '')\<close>\<close>

fun remove_leading_slash :: "string \<Rightarrow> string" where
  "remove_leading_slash (a # cs) = (if a = CHR ''/'' then cs else a # cs)"
| "remove_leading_slash [] = []"

text \<open>
  The \<open>options\<close> argument: not an object (or \<open>null\<close>), or an object whose \<open>filename\<close>
  is a string (\<open>Some\<close>) or is not.
\<close>

datatype export_options = NotAnObject | Options "string option"

text \<open>\<open>validateExportOptions\<close> returns \<open>{ filename }\<close>; the model returns the filename.\<close>

definition validateExportOptions :: "export_options \<Rightarrow> string" where
  "validateExportOptions options =
     (case options of
        NotAnObject \<Rightarrow> ''report.html''
      | Options None \<Rightarrow> ''report.html''
      | Options (Some name) \<Rightarrow>
          (let filename =
                 take 255
                   (remove_leading_slash (remove_drive_letter (remove_reserved (remove_dotdot name))))
           in if filename = [] \<or> trim filename = [] then ''report.html'' else filename))"

subsection \<open>The scanner handlers\<close>

text \<open>
  The state the two handlers share: the variable \<open>pythonProcess\<close> (the handle of the
  tracked child process, or \<open>null\<close>), and the operating system's side: the scanner
  processes that were spawned and have not terminated, oldest first, and the number of
  processes spawned so far, which is the next handle. The model follows the requests
  only: a spawn succeeds, and no scan finishes by itself between the requests, so the
  only terminations are those the cancel handler causes.
\<close>

record MainState =
  pythonProcess :: "nat option"
  running :: "nat list"
  spawned :: nat

definition initial_state :: MainState where
  "initial_state = \<lparr>pythonProcess = None, running = [], spawned = 0\<rparr>"

datatype start_outcome =
  ValidationFailed validation_error | PythonNotFound | ScannerSpawned nat "string list"

text \<open>
  \<open>ipcMain.handle('scanner:start')\<close> up to the \<open>spawn\<close>. The first argument is what
  \<open>getPythonCommand\<close> finds (\<open>None\<close>: it throws).
\<close>

definition scanner_start ::
  "string option \<Rightarrow> MainState \<Rightarrow> ipc_value unknown_array \<Rightarrow> MainState \<times> start_outcome" where
  "scanner_start pythonCmd st modules =
     (case validateModules modules of
        Inl e \<Rightarrow> (st, ValidationFailed e)
      | Inr validatedModules \<Rightarrow>
          (case pythonCmd of
             None \<Rightarrow> (st, PythonNotFound)
           | Some cmd \<Rightarrow>
               (st\<lparr>pythonProcess := Some (spawned st),
                   running := running st @ [spawned st],
                   spawned := spawned st + 1\<rparr>,
                ScannerSpawned (spawned st) validatedModules)))"

text \<open>\<open>ipcMain.handle('scanner:cancel')\<close>; the killed process terminates at once.\<close>

definition scanner_cancel :: "MainState \<Rightarrow> MainState \<times> bool" where
  "scanner_cancel st =
     (case pythonProcess st of
        Some p \<Rightarrow> (st\<lparr>pythonProcess := None, running := removeAll p (running st)\<rparr>, True)
      | None \<Rightarrow> (st, False))"

datatype ipc_request = ScannerStart "ipc_value unknown_array" | ScannerCancel

fun handle_request :: "string option \<Rightarrow> MainState \<Rightarrow> ipc_request \<Rightarrow> MainState" where
  "handle_request pythonCmd st (ScannerStart modules) = fst (scanner_start pythonCmd st modules)"
| "handle_request pythonCmd st ScannerCancel = fst (scanner_cancel st)"

definition handle_requests :: "string option \<Rightarrow> ipc_request list \<Rightarrow> MainState" where
  "handle_requests pythonCmd reqs = foldl (handle_request pythonCmd) initial_state reqs"

section \<open>The risk engine\<close>

text \<open>The attributes of a finding that \<open>calculate_risk\<close> reads.\<close>

record ScoredFinding =
  cvss_score :: real
  is_publicly_exposed :: bool
  requires_no_auth :: bool

text \<open>\<open>calculate_risk\<close>, the scoring algorithm of the implementation plan.\<close>

definition calculate_risk :: "ScoredFinding \<Rightarrow> real" where
  "calculate_risk finding =
     (let base_score = cvss_score finding;
          base_score = (if is_publicly_exposed finding then base_score * 1.2 else base_score);
          base_score = (if requires_no_auth finding then base_score * 1.1 else base_score)
      in min base_score 10.0)"

text \<open>
  Modelled from the spec: the mapping of the overall score to the risk level
  (risk_engine.py is not among the sources). Thresholds of section 4.2, step 3.
\<close>

definition risk_level_of :: "real \<Rightarrow> RiskLevel" where
  "risk_level_of score =
     (if score \<ge> 9.0 then RISK_CRITICAL
      else if score \<ge> 7.0 then RISK_HIGH
      else if score \<ge> 4.0 then RISK_MEDIUM
      else if score > 0.0 then RISK_LOW
      else SAFE)"

text \<open>
  Modelled from the spec: the finding that drives the score, the first one encountered
  with the maximal \<open>cvssScore\<close> (section 4.2, edge cases).
\<close>

fun top_finding :: "ScoredFinding \<Rightarrow> ScoredFinding list \<Rightarrow> ScoredFinding" where
  "top_finding best [] = best"
| "top_finding best (f # fs) = top_finding (if cvss_score f > cvss_score best then f else best) fs"

text \<open>
  Modelled from the spec: the aggregate risk engine over a list of findings
  (risk_engine.py is not among the sources). Section 4.2: the empty list scores 0.0 and is
  SAFE; otherwise the maximal score, boosted for the aggravating factors of the top
  finding as \<open>calculate_risk\<close> does, is clamped to the interval from 0.0 to 10.0 and
  mapped to its level.
\<close>

definition risk_engine :: "ScoredFinding list \<Rightarrow> real \<times> RiskLevel" where
  "risk_engine fs =
     (case fs of
        [] \<Rightarrow> (0.0, SAFE)
      | f # rest \<Rightarrow>
          (let score = max 0.0 (min 10.0 (calculate_risk (top_finding f rest)))
           in (score, risk_level_of score)))"

section \<open>The two field-naming conventions\<close>

text \<open>
  The content of a scan result, independent of how its fields are named: every field
  may be absent. A remediation step is a plain string or a structured step.
\<close>

record StepContent =
  sc_step :: "number option"
  sc_instruction :: "string option"
  sc_code :: "string option"
  sc_filePath :: "string option"

datatype step_content = PlainStep string | StructuredStep StepContent

record FindingContent =
  fc_id :: "string option"
  fc_title :: "string option"
  fc_description :: "string option"
  fc_severity :: "string option"
  fc_category :: "string option"
  fc_cvssScore :: "number option"
  fc_location :: "string option"
  fc_remediation :: "string option"
  fc_remediationSteps :: "step_content list option"
  fc_references :: "string list option"

record SystemInfoContent =
  ic_platform :: "string option"
  ic_platformDisplay :: "string option"
  ic_pythonVersion :: "string option"
  ic_username :: "string option"
  ic_isAdmin :: "bool option"
  ic_localIps :: "string list option"

record ScanContent =
  c_scanId :: "string option"
  c_timestamp :: "string option"
  c_durationSeconds :: "number option"
  c_findings :: "FindingContent list option"
  c_systemInfo :: "SystemInfoContent option"
  c_overallRiskScore :: "number option"
  c_riskLevel :: "string option"
  c_criticalCount :: "number option"
  c_highCount :: "number option"
  c_mediumCount :: "number option"
  c_lowCount :: "number option"
  c_infoCount :: "number option"

text \<open>Raw objects with no property set.\<close>

definition no_step :: RawRemediationStep where
  "no_step =
     \<lparr>raw_step = None, raw_instruction = None, raw_code = None, raw_file_path = None,
      raw_filePath = None\<rparr>"

definition no_system_info :: RawSystemInfo where
  "no_system_info =
     \<lparr>rsi_platform = None, rsi_platform_display = None, rsi_python_version = None,
      rsi_username = None, rsi_is_admin = None, rsi_local_ips = None,
      rsi_platformDisplay = None, rsi_pythonVersion = None, rsi_isAdmin = None,
      rsi_localIps = None\<rparr>"

definition no_finding :: RawFinding where
  "no_finding =
     \<lparr>rf_id = None, rf_title = None, rf_description = None, rf_severity = None,
      rf_category = None, rf_cvss_score = None, rf_location = None, rf_remediation = None,
      rf_remediation_steps = None, rf_references = None, rf_reference_links = None,
      rf_cvssScore = None, rf_remediationSteps = None\<rparr>"

definition no_scan_result :: RawScanResult where
  "no_scan_result =
     \<lparr>raw_scan_id = None, raw_timestamp = None, raw_duration_seconds = None,
      raw_findings = None, raw_system_info = None, raw_overall_risk_score = None,
      raw_risk_level = None, raw_summary = None, raw_scanId = None,
      raw_durationSeconds = None, raw_systemInfo = None, raw_overallRiskScore = None,
      raw_riskLevel = None, raw_criticalCount = None, raw_highCount = None,
      raw_mediumCount = None, raw_lowCount = None, raw_infoCount = None\<rparr>"

text \<open>
  The raw object in the primary convention (snake_case, as the scanning process writes
  it): \<open>scan_id\<close>, \<open>duration_seconds\<close>, \<open>system_info\<close> with \<open>platform_display\<close>,
  \<open>python_version\<close>, \<open>is_admin\<close>, \<open>local_ips\<close>, \<open>overall_risk_score\<close>, \<open>risk_level\<close>,
  \<open>cvss_score\<close>, \<open>remediation_steps\<close> with \<open>file_path\<close>, \<open>reference_links\<close>, and the
  counts under \<open>summary\<close>.
\<close>

definition primary_step :: "step_content \<Rightarrow> RawStep" where
  "primary_step s =
     (case s of
        PlainStep str \<Rightarrow> StepString str
      | StructuredStep c \<Rightarrow>
          StepObject (no_step\<lparr>raw_step := sc_step c, raw_instruction := sc_instruction c,
                              raw_code := sc_code c, raw_file_path := sc_filePath c\<rparr>))"

definition primary_finding :: "FindingContent \<Rightarrow> RawFinding" where
  "primary_finding c =
     no_finding\<lparr>rf_id := fc_id c, rf_title := fc_title c, rf_description := fc_description c,
                rf_severity := fc_severity c, rf_category := fc_category c,
                rf_cvss_score := fc_cvssScore c, rf_location := fc_location c,
                rf_remediation := fc_remediation c,
                rf_remediation_steps := map_option (map primary_step) (fc_remediationSteps c),
                rf_reference_links := fc_references c\<rparr>"

definition primary_system_info :: "SystemInfoContent \<Rightarrow> RawSystemInfo" where
  "primary_system_info c =
     no_system_info\<lparr>rsi_platform := ic_platform c, rsi_platform_display := ic_platformDisplay c,
                    rsi_python_version := ic_pythonVersion c, rsi_username := ic_username c,
                    rsi_is_admin := ic_isAdmin c, rsi_local_ips := ic_localIps c\<rparr>"

definition encode_primary :: "ScanContent \<Rightarrow> RawScanResult" where
  "encode_primary c =
     no_scan_result\<lparr>raw_scan_id := c_scanId c, raw_timestamp := c_timestamp c,
                    raw_duration_seconds := c_durationSeconds c,
                    raw_findings := map_option (map primary_finding) (c_findings c),
                    raw_system_info := map_option primary_system_info (c_systemInfo c),
                    raw_overall_risk_score := c_overallRiskScore c,
                    raw_risk_level := c_riskLevel c,
                    raw_summary :=
                      Some \<lparr>critical_count = c_criticalCount c, high_count = c_highCount c,
                            medium_count = c_mediumCount c, low_count = c_lowCount c,
                            info_count = c_infoCount c\<rparr>\<rparr>"

text \<open>
  The raw object in the alternate convention (camelCase, as the demo path writes it):
  \<open>scanId\<close>, \<open>durationSeconds\<close>, \<open>systemInfo\<close> with \<open>platformDisplay\<close>, \<open>pythonVersion\<close>,
  \<open>isAdmin\<close>, \<open>localIps\<close>, \<open>overallRiskScore\<close>, \<open>riskLevel\<close>, \<open>cvssScore\<close>,
  \<open>remediationSteps\<close> with \<open>filePath\<close>, \<open>references\<close>, and the counts at the top level.
\<close>

definition alternate_step :: "step_content \<Rightarrow> RawStep" where
  "alternate_step s =
     (case s of
        PlainStep str \<Rightarrow> StepString str
      | StructuredStep c \<Rightarrow>
          StepObject (no_step\<lparr>raw_step := sc_step c, raw_instruction := sc_instruction c,
                              raw_code := sc_code c, raw_filePath := sc_filePath c\<rparr>))"

definition alternate_finding :: "FindingContent \<Rightarrow> RawFinding" where
  "alternate_finding c =
     no_finding\<lparr>rf_id := fc_id c, rf_title := fc_title c, rf_description := fc_description c,
                rf_severity := fc_severity c, rf_category := fc_category c,
                rf_cvssScore := fc_cvssScore c, rf_location := fc_location c,
                rf_remediation := fc_remediation c,
                rf_remediationSteps := map_option (map alternate_step) (fc_remediationSteps c),
                rf_references := fc_references c\<rparr>"

definition alternate_system_info :: "SystemInfoContent \<Rightarrow> RawSystemInfo" where
  "alternate_system_info c =
     no_system_info\<lparr>rsi_platform := ic_platform c, rsi_platformDisplay := ic_platformDisplay c,
                    rsi_pythonVersion := ic_pythonVersion c, rsi_username := ic_username c,
                    rsi_isAdmin := ic_isAdmin c, rsi_localIps := ic_localIps c\<rparr>"

definition encode_alternate :: "ScanContent \<Rightarrow> RawScanResult" where
  "encode_alternate c =
     no_scan_result\<lparr>raw_scanId := c_scanId c, raw_timestamp := c_timestamp c,
                    raw_durationSeconds := c_durationSeconds c,
                    raw_findings := map_option (map alternate_finding) (c_findings c),
                    raw_systemInfo := map_option alternate_system_info (c_systemInfo c),
                    raw_overallRiskScore := c_overallRiskScore c,
                    raw_riskLevel := c_riskLevel c,
                    raw_criticalCount := c_criticalCount c, raw_highCount := c_highCount c,
                    raw_mediumCount := c_mediumCount c, raw_lowCount := c_lowCount c,
                    raw_infoCount := c_infoCount c\<rparr>"

section \<open>The normalizers on untyped values\<close>

text \<open>
  The TypeScript types are erased at run time. What a normalizer can receive in a raw
  field: nothing (\<open>undefined\<close> or \<open>null\<close>), a string, another falsy value (\<open>0\<close>, \<open>NaN\<close>,
  \<open>false\<close>), or another truthy value (a non-zero number, \<open>true\<close>, an object). On a
  truthy value that is not a string, \<open>value.toUpperCase\<close> is not a function and the call
  raises a \<open>TypeError\<close>.
\<close>

datatype field_value = Missing | Text string | OtherFalsy | OtherTruthy

datatype js_error = TypeError

definition normalizeSeverity_value :: "field_value \<Rightarrow> js_error + Severity" where
  "normalizeSeverity_value v =
     (case v of
        Missing \<Rightarrow> Inr INFO
      | OtherFalsy \<Rightarrow> Inr INFO
      | OtherTruthy \<Rightarrow> Inl TypeError
      | Text s \<Rightarrow>
          if s = [] then Inr INFO
          else (let normalized = toUpperCase s in
                if normalized \<in> set (map fst severity_names)
                then Inr (the (map_of severity_names normalized))
                else Inr INFO))"

definition normalizeCategory_value :: "field_value \<Rightarrow> js_error + Category" where
  "normalizeCategory_value v =
     (case v of
        Missing \<Rightarrow> Inr CONFIGURATION
      | OtherFalsy \<Rightarrow> Inr CONFIGURATION
      | OtherTruthy \<Rightarrow> Inl TypeError
      | Text s \<Rightarrow>
          if s = [] then Inr CONFIGURATION
          else (let normalized = toUpperCase s in
                if normalized \<in> set (map fst validCategories)
                then Inr (the (map_of validCategories normalized))
                else Inr CONFIGURATION))"

text \<open>
  \<open>normalizeRiskLevelString\<close> has no falsy test; its caller passes
  \<open>raw.risk_level ?? raw.riskLevel ?? 'safe'\<close>, so a missing value arrives as \<open>'safe'\<close>.
\<close>

definition normalizeRiskLevelString_value :: "field_value \<Rightarrow> js_error + RiskLevel" where
  "normalizeRiskLevelString_value v =
     (case v of
        Text s \<Rightarrow>
          (let normalized = toUpperCase s in
           if normalized \<in> set (map fst risk_level_names)
           then Inr (the (map_of risk_level_names normalized))
           else Inr SAFE)
      | Missing \<Rightarrow> Inl TypeError
      | OtherFalsy \<Rightarrow> Inl TypeError
      | OtherTruthy \<Rightarrow> Inl TypeError)"

definition normalizeRiskLevel_value :: "field_value \<Rightarrow> js_error + RiskLevel" where
  "normalizeRiskLevel_value v =
     (case v of
        Missing \<Rightarrow> Inr SAFE
      | OtherFalsy \<Rightarrow> Inr SAFE
      | OtherTruthy \<Rightarrow> Inl TypeError
      | Text s \<Rightarrow>
          if s = [] then Inr SAFE
          else (let normalized = toUpperCase s in
                if normalized \<in> set (map fst risk_level_names)
                then Inr (the (map_of risk_level_names normalized))
                else Inr SAFE))"

text \<open>
  Two characters are the same letter up to case: they are equal, or one is a lower-case
  ASCII letter and the other the upper-case letter at the same place of the alphabet.
  A string matches a name case-insensitively when they have the same length and agree
  character by character up to case.
\<close>

definition same_letter :: "char \<Rightarrow> char \<Rightarrow> bool" where
  "same_letter a b =
     (a = b \<or> (a, b) \<in> set (zip lower_letters upper_letters)
            \<or> (b, a) \<in> set (zip lower_letters upper_letters))"

definition matches_ignoring_case :: "string \<Rightarrow> string \<Rightarrow> bool" where
  "matches_ignoring_case s name = list_all2 same_letter s name"

section \<open>Notions the properties are stated with\<close>

text \<open>The sum of the five severity counts of a scan result.\<close>

definition countsSum :: "ScanResult \<Rightarrow> number" where
  "countsSum r = criticalCount r + highCount r + mediumCount r + lowCount r + infoCount r"

text \<open>The number of findings whose own severity field is the given severity.\<close>

definition tally :: "Severity \<Rightarrow> Finding list \<Rightarrow> nat" where
  "tally s fs = length (filter (\<lambda>f. severity f = s) fs)"

text \<open>
  What \<open>raw.summary?.x_count ?? raw.xCount ?? 0\<close> reads from a raw object, for the
  selectors of one count.
\<close>

definition rawCount ::
  "RawScanResult \<Rightarrow> (RawSummary \<Rightarrow> number option) \<Rightarrow> (RawScanResult \<Rightarrow> number option) \<Rightarrow> number"
  where
  "rawCount raw snake camel =
     nullish_default (nullish (opt_chain (raw_summary raw) snake) (camel raw)) 0"

text \<open>
  Sample data for the closed statements below: a finding with the given id, title and
  severity, and a complete scan result with the given findings.
\<close>

definition sample_finding :: "string \<Rightarrow> string \<Rightarrow> Severity \<Rightarrow> Finding" where
  "sample_finding i t s =
     \<lparr>id_field = i, title = t, description = [], severity = s, category = CONFIGURATION,
      cvssScore = 0, location = None, remediation = [], remediationSteps = [],
      references = []\<rparr>"

definition sample_result :: "Finding list \<Rightarrow> ScanResult" where
  "sample_result fs =
     \<lparr>scanId = ''demo-001'', timestamp = ''2026-01-01T00:00:00.000Z'', durationSeconds = 0,
      findings = fs,
      systemInfo =
        \<lparr>platform = ''demo'', platformDisplay = ''Demo'', pythonVersion = ''3.11.0'',
         username = ''demo_user'', isAdmin = False, localIps = []\<rparr>,
      overallRiskScore = 0, riskLevel = SAFE, criticalCount = 0, highCount = 0,
      mediumCount = 0, lowCount = 0, infoCount = 0\<rparr>"

text \<open>A finding passes the severity filter of the views.\<close>

definition passes_filter :: "severity_filter \<Rightarrow> Finding \<Rightarrow> bool" where
  "passes_filter flt f = (case flt of ALL_FILTER \<Rightarrow> True | Only s \<Rightarrow> severity f = s)"

text \<open>The title of a finding, lower-cased, contains one of the two advisory phrases.\<close>

definition title_has_phrase :: "Finding \<Rightarrow> bool" where
  "title_has_phrase f =
     (includes_str (toLowerCase (title f)) ''not installed'' \<or>
      includes_str (toLowerCase (title f)) ''not configured'')"

text \<open>A rendered block is a severity group.\<close>

fun is_group :: "view_block \<Rightarrow> bool" where
  "is_group (SeverityGroup s gs) = True"
| "is_group b = False"

section \<open>Properties of the normalizer\<close>

lemma toUpperCase_Nil: "toUpperCase [] = []"
  by (simp add: toUpperCase_def)

lemma letters_distinct: "distinct (map fst (zip lower_letters upper_letters))"
  by (simp add: lower_letters_def upper_letters_def)

lemma letters_keys: "fst ` set (zip lower_letters upper_letters) = set lower_letters"
proof -
  have "map fst (zip lower_letters upper_letters) = lower_letters"
    by (simp add: lower_letters_def upper_letters_def)
  then have "set (map fst (zip lower_letters upper_letters)) = set lower_letters"
    by simp
  then show ?thesis by simp
qed

text \<open>
  Upper-casing a character gives a character \<open>u\<close> that is not a lower-case letter
  exactly when the character is \<open>u\<close> up to case.
\<close>

lemma toUpperCase_char_same_letter:
  assumes "u \<notin> set lower_letters"
  shows "(toUpperCase_char c = u) = same_letter c u"
proof -
  have nu: "(u, c) \<notin> set (zip lower_letters upper_letters)"
    using assms letters_keys by force
  show ?thesis
  proof (cases "map_of (zip lower_letters upper_letters) c")
    case None
    then have "c \<notin> fst ` set (zip lower_letters upper_letters)"
      by (simp add: map_of_eq_None_iff)
    then have "(c, u) \<notin> set (zip lower_letters upper_letters)"
      by force
    with nu None show ?thesis
      by (simp add: toUpperCase_char_def same_letter_def)
  next
    case (Some v)
    then have cv: "(c, v) \<in> set (zip lower_letters upper_letters)"
      by (rule map_of_SomeD)
    then have "c \<in> set lower_letters"
      using letters_keys by force
    with assms have ne: "c \<noteq> u" by blast
    have "(c, u) \<in> set (zip lower_letters upper_letters) \<longleftrightarrow> v = u"
    proof
      assume "(c, u) \<in> set (zip lower_letters upper_letters)"
      then have "map_of (zip lower_letters upper_letters) c = Some u"
        using letters_distinct by (rule map_of_is_SomeI [rotated])
      with Some show "v = u" by simp
    next
      assume "v = u"
      with cv show "(c, u) \<in> set (zip lower_letters upper_letters)" by simp
    qed
    with nu ne Some show ?thesis
      by (simp add: toUpperCase_char_def same_letter_def)
  qed
qed

lemma toUpperCase_matches:
  "set name \<inter> set lower_letters = {} \<Longrightarrow>
   (toUpperCase s = name) = matches_ignoring_case s name"
proof (induction name arbitrary: s)
  case Nil
  then show ?case by (simp add: toUpperCase_def matches_ignoring_case_def)
next
  case (Cons u name)
  then have u: "u \<notin> set lower_letters" and rest: "set name \<inter> set lower_letters = {}"
    by auto
  show ?case
  proof (cases s)
    case Nil
    then show ?thesis by (simp add: toUpperCase_def matches_ignoring_case_def)
  next
    case (Cons c cs)
    have "(toUpperCase cs = name) = matches_ignoring_case cs name"
      using Cons.IH [OF rest] .
    then show ?thesis
      using toUpperCase_char_same_letter [OF u, of c]
      by (simp add: Cons toUpperCase_def matches_ignoring_case_def)
  qed
qed

lemma names_upper:
  "set ''CRITICAL'' \<inter> set lower_letters = {}" "set ''HIGH'' \<inter> set lower_letters = {}"
  "set ''MEDIUM'' \<inter> set lower_letters = {}" "set ''LOW'' \<inter> set lower_letters = {}"
  "set ''INFO'' \<inter> set lower_letters = {}" "set ''SAFE'' \<inter> set lower_letters = {}"
  "set ''PORT_EXPOSURE'' \<inter> set lower_letters = {}"
  "set ''AUTHENTICATION'' \<inter> set lower_letters = {}"
  "set ''CREDENTIALS'' \<inter> set lower_letters = {}"
  "set ''CONFIGURATION'' \<inter> set lower_letters = {}"
  "set ''PERMISSIONS'' \<inter> set lower_letters = {}"
  "set ''NETWORK'' \<inter> set lower_letters = {}"
  by (simp_all add: lower_letters_def)

lemmas upper_matches = names_upper [THEN toUpperCase_matches]

lemma normalizeSeverity_upper:
  "normalizeSeverity (Some s) =
     (if toUpperCase s = ''CRITICAL'' then CRITICAL
      else if toUpperCase s = ''HIGH'' then HIGH
      else if toUpperCase s = ''MEDIUM'' then MEDIUM
      else if toUpperCase s = ''LOW'' then LOW
      else INFO)"
  by (cases "s = []")
     (auto simp: normalizeSeverity_def severity_names_def toUpperCase_Nil Let_def)

lemma normalizeCategory_upper:
  "normalizeCategory (Some s) =
     (if toUpperCase s = ''PORT_EXPOSURE'' then PORT_EXPOSURE
      else if toUpperCase s = ''AUTHENTICATION'' then AUTHENTICATION
      else if toUpperCase s = ''CREDENTIALS'' then CREDENTIALS
      else if toUpperCase s = ''PERMISSIONS'' then PERMISSIONS
      else if toUpperCase s = ''NETWORK'' then NETWORK
      else CONFIGURATION)"
  by (cases "s = []")
     (auto simp: normalizeCategory_def validCategories_def toUpperCase_Nil Let_def)

lemma normalizeRiskLevelString_upper:
  "normalizeRiskLevelString s =
     (if toUpperCase s = ''CRITICAL'' then RISK_CRITICAL
      else if toUpperCase s = ''HIGH'' then RISK_HIGH
      else if toUpperCase s = ''MEDIUM'' then RISK_MEDIUM
      else if toUpperCase s = ''LOW'' then RISK_LOW
      else SAFE)"
  by (auto simp: normalizeRiskLevelString_def risk_level_names_def Let_def)

lemma normalizeRiskLevel_string: "normalizeRiskLevel (Some s) = normalizeRiskLevelString s"
  by (cases "s = []")
     (auto simp: normalizeRiskLevel_def normalizeRiskLevelString_def risk_level_names_def
        toUpperCase_Nil Let_def)

lemma normalizers_on_text:
  "normalizeSeverity_value (Text s) = Inr (normalizeSeverity (Some s))"
  "normalizeCategory_value (Text s) = Inr (normalizeCategory (Some s))"
  "normalizeRiskLevelString_value (Text s) = Inr (normalizeRiskLevelString s)"
  "normalizeRiskLevel_value (Text s) = Inr (normalizeRiskLevel (Some s))"
  by (simp_all add: normalizeSeverity_value_def normalizeSeverity_def
      normalizeCategory_value_def normalizeCategory_def
      normalizeRiskLevelString_value_def normalizeRiskLevelString_def
      normalizeRiskLevel_value_def normalizeRiskLevel_def Let_def)

lemma upper_examples:
  "toUpperCase ''high'' = ''HIGH''" "toUpperCase ''CrItIcAl'' = ''CRITICAL''"
  "toUpperCase ''urgent'' = ''URGENT''" "toUpperCase ''port_exposure'' = ''PORT_EXPOSURE''"
  "toUpperCase ''misc'' = ''MISC''" "toUpperCase ''Medium'' = ''MEDIUM''"
  "toUpperCase ''safe'' = ''SAFE''" "toUpperCase ''info'' = ''INFO''"
  by (simp_all add: toUpperCase_def toUpperCase_char_def lower_letters_def upper_letters_def)

text \<open>
  Claim C8. For every input string, the normalization of the severity, the category and
  the risk level returns a value and raises nothing. The string is matched
  case-insensitively against the names of the fixed enumeration: a string that agrees
  with a name character by character up to the case of the ASCII letters gives that
  member, any other string the default (INFO, CONFIGURATION, SAFE). So \<open>high\<close> and
  \<open>CrItIcAl\<close> are the severities HIGH and CRITICAL, and \<open>urgent\<close> is INFO. A bad
  severity, category or risk level changes that one field of the normalized finding or
  scan result and nothing else.
\<close>

theorem normalizers_case_insensitive_default:
  "normalizeSeverity_value (Text s) = Inr (normalizeSeverity (Some s))
   \<and> normalizeCategory_value (Text s) = Inr (normalizeCategory (Some s))
   \<and> normalizeRiskLevelString_value (Text s) = Inr (normalizeRiskLevelString s)
   \<and> normalizeRiskLevel_value (Text s) = Inr (normalizeRiskLevel (Some s))
   \<and> normalizeSeverity (Some s) =
     (if matches_ignoring_case s ''CRITICAL'' then CRITICAL
      else if matches_ignoring_case s ''HIGH'' then HIGH
      else if matches_ignoring_case s ''MEDIUM'' then MEDIUM
      else if matches_ignoring_case s ''LOW'' then LOW
      else INFO)
   \<and> normalizeCategory (Some s) =
     (if matches_ignoring_case s ''PORT_EXPOSURE'' then PORT_EXPOSURE
      else if matches_ignoring_case s ''AUTHENTICATION'' then AUTHENTICATION
      else if matches_ignoring_case s ''CREDENTIALS'' then CREDENTIALS
      else if matches_ignoring_case s ''PERMISSIONS'' then PERMISSIONS
      else if matches_ignoring_case s ''NETWORK'' then NETWORK
      else CONFIGURATION)
   \<and> normalizeRiskLevelString s =
     (if matches_ignoring_case s ''CRITICAL'' then RISK_CRITICAL
      else if matches_ignoring_case s ''HIGH'' then RISK_HIGH
      else if matches_ignoring_case s ''MEDIUM'' then RISK_MEDIUM
      else if matches_ignoring_case s ''LOW'' then RISK_LOW
      else SAFE)
   \<and> normalizeRiskLevel (Some s) = normalizeRiskLevelString s
   \<and> normalizeSeverity (Some ''high'') = HIGH
   \<and> normalizeSeverity (Some ''CrItIcAl'') = CRITICAL
   \<and> normalizeSeverity (Some ''info'') = INFO
   \<and> normalizeSeverity (Some ''urgent'') = INFO
   \<and> normalizeCategory (Some ''port_exposure'') = PORT_EXPOSURE
   \<and> normalizeCategory (Some ''misc'') = CONFIGURATION
   \<and> normalizeRiskLevelString ''Medium'' = RISK_MEDIUM
   \<and> normalizeRiskLevelString ''safe'' = SAFE
   \<and> normalizeRiskLevelString ''urgent'' = SAFE
   \<and> normalizeRiskLevel (Some ''high'') = RISK_HIGH
   \<and> normalizeFinding (f\<lparr>rf_severity := Some s, rf_category := Some t\<rparr>) =
       (normalizeFinding f)\<lparr>severity := normalizeSeverity (Some s),
                             category := normalizeCategory (Some t)\<rparr>
   \<and> normalizeScanResult now (raw\<lparr>raw_risk_level := Some s\<rparr>) =
       (normalizeScanResult now raw)\<lparr>riskLevel := normalizeRiskLevelString s\<rparr>"
proof (intro conjI)
  show "normalizeSeverity (Some s) =
     (if matches_ignoring_case s ''CRITICAL'' then CRITICAL
      else if matches_ignoring_case s ''HIGH'' then HIGH
      else if matches_ignoring_case s ''MEDIUM'' then MEDIUM
      else if matches_ignoring_case s ''LOW'' then LOW
      else INFO)"
    unfolding normalizeSeverity_upper upper_matches ..
  show "normalizeCategory (Some s) =
     (if matches_ignoring_case s ''PORT_EXPOSURE'' then PORT_EXPOSURE
      else if matches_ignoring_case s ''AUTHENTICATION'' then AUTHENTICATION
      else if matches_ignoring_case s ''CREDENTIALS'' then CREDENTIALS
      else if matches_ignoring_case s ''PERMISSIONS'' then PERMISSIONS
      else if matches_ignoring_case s ''NETWORK'' then NETWORK
      else CONFIGURATION)"
    unfolding normalizeCategory_upper upper_matches ..
  show "normalizeRiskLevelString s =
     (if matches_ignoring_case s ''CRITICAL'' then RISK_CRITICAL
      else if matches_ignoring_case s ''HIGH'' then RISK_HIGH
      else if matches_ignoring_case s ''MEDIUM'' then RISK_MEDIUM
      else if matches_ignoring_case s ''LOW'' then RISK_LOW
      else SAFE)"
    unfolding normalizeRiskLevelString_upper upper_matches ..
  show "normalizeRiskLevel (Some s) = normalizeRiskLevelString s"
    by (rule normalizeRiskLevel_string)
  show "normalizeSeverity (Some ''high'') = HIGH"
    unfolding normalizeSeverity_upper upper_examples by simp
  show "normalizeSeverity (Some ''CrItIcAl'') = CRITICAL"
    unfolding normalizeSeverity_upper upper_examples by simp
  show "normalizeSeverity (Some ''info'') = INFO"
    unfolding normalizeSeverity_upper upper_examples by simp
  show "normalizeSeverity (Some ''urgent'') = INFO"
    unfolding normalizeSeverity_upper upper_examples by simp
  show "normalizeCategory (Some ''port_exposure'') = PORT_EXPOSURE"
    unfolding normalizeCategory_upper upper_examples by simp
  show "normalizeCategory (Some ''misc'') = CONFIGURATION"
    unfolding normalizeCategory_upper upper_examples by simp
  show "normalizeRiskLevelString ''Medium'' = RISK_MEDIUM"
    unfolding normalizeRiskLevelString_upper upper_examples by simp
  show "normalizeRiskLevelString ''safe'' = SAFE"
    unfolding normalizeRiskLevelString_upper upper_examples by simp
  show "normalizeRiskLevelString ''urgent'' = SAFE"
    unfolding normalizeRiskLevelString_upper upper_examples by simp
  show "normalizeRiskLevel (Some ''high'') = RISK_HIGH"
    unfolding normalizeRiskLevel_string normalizeRiskLevelString_upper upper_examples by simp
  show "normalizeFinding (f\<lparr>rf_severity := Some s, rf_category := Some t\<rparr>) =
       (normalizeFinding f)\<lparr>severity := normalizeSeverity (Some s),
                             category := normalizeCategory (Some t)\<rparr>"
    by (simp add: normalizeFinding_def)
  show "normalizeScanResult now (raw\<lparr>raw_risk_level := Some s\<rparr>) =
       (normalizeScanResult now raw)\<lparr>riskLevel := normalizeRiskLevelString s\<rparr>"
    by (simp add: normalizeScanResult_def Let_def nullish_def nullish_default_def)
qed (rule normalizers_on_text)+

lemma nullish_simps:
  "nullish None b = b" "nullish (Some v) b = Some v" "nullish a None = a"
  by (simp_all add: nullish_def split: option.splits)

lemma nullish_default_simps:
  "nullish_default None d = d" "nullish_default (Some v) d = v"
  by (simp_all add: nullish_default_def)

lemma opt_chain_simps:
  "opt_chain None g = None" "opt_chain (Some v) g = g v"
  by (simp_all add: opt_chain_def)

text \<open>
  Claim C2, as stated, fails: a raw object with one finding and no counts normalizes to
  a result with one finding (of severity INFO) and five counts that are all 0.
\<close>

theorem counts_not_tallied_counterexample:
  "length (findings (normalizeScanResult ''2026-01-01''
      (no_scan_result\<lparr>raw_findings := Some [no_finding]\<rparr>))) = 1
   \<and> countsSum (normalizeScanResult ''2026-01-01''
      (no_scan_result\<lparr>raw_findings := Some [no_finding]\<rparr>)) = 0
   \<and> infoCount (normalizeScanResult ''2026-01-01''
      (no_scan_result\<lparr>raw_findings := Some [no_finding]\<rparr>)) = 0
   \<and> tally INFO (findings (normalizeScanResult ''2026-01-01''
      (no_scan_result\<lparr>raw_findings := Some [no_finding]\<rparr>))) = 1"
  by (simp add: normalizeScanResult_def no_scan_result_def no_finding_def countsSum_def tally_def
      nullish_def nullish_default_def opt_chain_def Let_def normalizeFinding_def
      normalizeSeverity_def)

text \<open>
  Claim C2, amended. \<open>normalizeScanResult\<close> does not tally the findings: each of the
  five counts of its result is the count the raw object carries (\<open>summary.x_count\<close>, else
  \<open>xCount\<close>, else 0), and its findings are the raw findings mapped one to one. Hence the
  five counts of the result sum to the number of its findings exactly when the counts of
  the raw object sum to the number of the raw findings.
\<close>

theorem counts_copied_from_raw:
  "criticalCount (normalizeScanResult now raw) = rawCount raw critical_count raw_criticalCount
   \<and> highCount (normalizeScanResult now raw) = rawCount raw high_count raw_highCount
   \<and> mediumCount (normalizeScanResult now raw) = rawCount raw medium_count raw_mediumCount
   \<and> lowCount (normalizeScanResult now raw) = rawCount raw low_count raw_lowCount
   \<and> infoCount (normalizeScanResult now raw) = rawCount raw info_count raw_infoCount
   \<and> length (findings (normalizeScanResult now raw)) =
       length (nullish_default (raw_findings raw) [])
   \<and> (countsSum (normalizeScanResult now raw) =
        real (length (findings (normalizeScanResult now raw))))
      = (rawCount raw critical_count raw_criticalCount + rawCount raw high_count raw_highCount
         + rawCount raw medium_count raw_mediumCount + rawCount raw low_count raw_lowCount
         + rawCount raw info_count raw_infoCount
         = real (length (nullish_default (raw_findings raw) [])))"
  by (simp add: normalizeScanResult_def rawCount_def countsSum_def Let_def)

lemma steps_agree:
  "normalizeRemediationStep (primary_step s) i = normalizeRemediationStep (alternate_step s) i"
  by (cases s)
     (simp_all add: normalizeRemediationStep_def primary_step_def alternate_step_def no_step_def
        nullish_simps)

lemma step_lists_agree:
  "normalizeRemediationSteps (IsArray (map primary_step xs)) =
   normalizeRemediationSteps (IsArray (map alternate_step xs))"
  by (simp add: normalizeRemediationSteps_def zip_map1 steps_agree split_def)

lemma findings_agree:
  "normalizeFinding (primary_finding c) = normalizeFinding (alternate_finding c)"
proof (cases "fc_remediationSteps c")
  case None
  then show ?thesis
    by (simp add: normalizeFinding_def primary_finding_def alternate_finding_def no_finding_def
        nullish_simps)
next
  case (Some xs)
  then show ?thesis
    using step_lists_agree [of xs]
    by (simp add: normalizeFinding_def primary_finding_def alternate_finding_def no_finding_def
        nullish_simps nullish_default_simps)
qed

text \<open>
  Claim C3. For every scan result content, the raw object written in the primary
  (snake_case) convention and the raw object written in the alternate (camelCase)
  convention normalize to the same canonical scan result (at the same clock reading,
  which only matters when the content has no timestamp).
\<close>

theorem conventions_agree:
  "normalizeScanResult now (encode_primary c) = normalizeScanResult now (encode_alternate c)"
proof -
  have fs: "map normalizeFinding (nullish_default (raw_findings (encode_primary c)) []) =
            map normalizeFinding (nullish_default (raw_findings (encode_alternate c)) [])"
    by (cases "c_findings c")
       (simp_all add: encode_primary_def encode_alternate_def no_scan_result_def
          nullish_default_def findings_agree)
  show ?thesis
    unfolding normalizeScanResult_def Let_def fs
    by (cases "c_systemInfo c")
       (simp_all add: encode_primary_def encode_alternate_def no_scan_result_def
          primary_system_info_def alternate_system_info_def no_system_info_def
          nullish_simps opt_chain_simps)
qed

section \<open>Properties of the string searches\<close>

lemma startsWith_decomp: "startsWith s sub \<Longrightarrow> s = [] @ sub @ drop (length sub) s"
  by (metis append_Nil append_take_drop_id startsWith_def)

text \<open>\<open>includes_str\<close> is the substring test.\<close>

lemma includes_str_iff: "includes_str s sub \<longleftrightarrow> (\<exists>a b. s = a @ sub @ b)"
proof (induction s)
  case Nil
  then show ?case by auto
next
  case (Cons c cs)
  show ?case
  proof
    assume "includes_str (c # cs) sub"
    then consider "startsWith (c # cs) sub" | "includes_str cs sub" by auto
    then show "\<exists>a b. c # cs = a @ sub @ b"
    proof cases
      case 1
      then show ?thesis using startsWith_decomp by blast
    next
      case 2
      then obtain a b where "cs = a @ sub @ b" using Cons.IH by blast
      then have "c # cs = (c # a) @ sub @ b" by simp
      then show ?thesis by blast
    qed
  next
    assume "\<exists>a b. c # cs = a @ sub @ b"
    then obtain a b where ab: "c # cs = a @ sub @ b" by blast
    show "includes_str (c # cs) sub"
    proof (cases a)
      case Nil
      with ab have "startsWith (c # cs) sub" by (simp add: startsWith_def)
      then show ?thesis by simp
    next
      case (Cons x a')
      with ab have "cs = a' @ sub @ b" by simp
      then have "includes_str cs sub" using Cons.IH by blast
      then show ?thesis by simp
    qed
  qed
qed

lemma indexOf_none: "\<not> includes_str s sub \<Longrightarrow> indexOf s sub = - 1"
  by (induction s) (auto simp: Let_def)

text \<open>
  When no colon-space begins before position \<open>length a\<close>, the first colon-space of
  \<open>a @ '': '' @ b\<close> is the one after \<open>a\<close>.
\<close>

lemma indexOf_first:
  "\<not> includes_str (a @ '':'') '': '' \<Longrightarrow> indexOf (a @ '': '' @ b) '': '' = int (length a)"
proof (induction a)
  case Nil
  then show ?case by (simp add: startsWith_def)
next
  case (Cons x a')
  then have ns: "\<not> startsWith (x # a' @ '':'') '': ''"
    and ni: "\<not> includes_str (a' @ '':'') '': ''"
    by auto
  from ns have "\<not> startsWith (x # a' @ '': '' @ b) '': ''"
    by (cases a') (auto simp: startsWith_def)
  moreover have "indexOf (a' @ '': '' @ b) '': '' = int (length a')"
    using Cons.IH ni by blast
  ultimately show ?case by (simp add: Let_def)
qed

section \<open>Remediation steps\<close>

lemma step_string_split:
  assumes "\<not> includes_str (a @ '':'') '': ''" and "length a < 50"
  shows "normalizeRemediationStep (StepString (a @ '': '' @ b)) k =
           \<lparr>step = real (k + 1), instruction = a,
            code = (if trim b = [] then None else Some (trim b)), filePath = None\<rparr>"
proof -
  define str where "str = a @ '': '' @ b"
  have i: "indexOf str '': '' = int (length a)"
    unfolding str_def using assms(1) by (rule indexOf_first)
  have n: "nat (int (length a) + 2) = length a + 2"
    by simp
  have d: "substring_from str (int (length a) + 2) = b"
    unfolding str_def substring_from_def n by simp
  have t: "substring_to str (int (length a)) = a"
    by (simp add: substring_to_def str_def)
  have "normalizeRemediationStep (StepString str) k =
           \<lparr>step = real (k + 1), instruction = a,
            code = (if trim b = [] then None else Some (trim b)), filePath = None\<rparr>"
    using assms(2) by (simp add: normalizeRemediationStep_def Let_def i d t)
  then show ?thesis unfolding str_def .
qed

lemma step_string_late_colon:
  assumes "\<not> includes_str (a @ '':'') '': ''" and "50 \<le> length a"
  shows "normalizeRemediationStep (StepString (a @ '': '' @ b)) k =
           \<lparr>step = real (k + 1), instruction = a @ '': '' @ b, code = None, filePath = None\<rparr>"
proof -
  define str where "str = a @ '': '' @ b"
  have i: "indexOf str '': '' = int (length a)"
    unfolding str_def using assms(1) by (rule indexOf_first)
  have "normalizeRemediationStep (StepString str) k =
           \<lparr>step = real (k + 1), instruction = str, code = None, filePath = None\<rparr>"
    using assms(2) by (simp add: normalizeRemediationStep_def Let_def i)
  then show ?thesis unfolding str_def .
qed

lemma step_string_no_colon:
  assumes "\<not> includes_str s '': ''"
  shows "normalizeRemediationStep (StepString s) k =
           \<lparr>step = real (k + 1), instruction = s, code = None, filePath = None\<rparr>"
  using indexOf_none [OF assms]
  by (simp add: normalizeRemediationStep_def Let_def)

lemma steps_nth:
  "k < length steps \<Longrightarrow>
   normalizeRemediationSteps (IsArray steps) ! k = normalizeRemediationStep (steps ! k) k"
  by (simp add: normalizeRemediationSteps_def)

text \<open>
  Claim C4, as stated, fails: a string with a colon among its first 50 characters that
  is not followed by a space is not split.
\<close>

theorem colon_without_space_counterexample:
  "CHR '':'' \<in> set (take 50 ''Open http://localhost:18789'')
   \<and> normalizeRemediationStep (StepString ''Open http://localhost:18789'') 0 =
       \<lparr>step = 1, instruction = ''Open http://localhost:18789'', code = None, filePath = None\<rparr>"
  by (simp add: normalizeRemediationStep_def startsWith_def Let_def)

text \<open>
  Claim C4, amended. The separator is a colon followed by a space. A plain string whose
  first colon-space begins at an index below 50 becomes the step with the text before
  the colon as instruction and the trimmed text after the colon-space as code (no code
  when that text is empty); a string whose first colon-space begins at index 50 or
  later, or that has none, becomes an instruction-only step. A structured step keeps
  its step number (default: position plus one), instruction (default: empty), code and
  file path (\<open>file_path\<close>, else \<open>filePath\<close>). The steps keep their order and the step of
  position \<open>k\<close> is numbered \<open>k + 1\<close>. In particular the two strings of the claim
  normalize as it says.
\<close>

theorem remediation_step_normalization:
  "(\<not> includes_str (a @ '':'') '': '' \<and> length a < 50 \<longrightarrow>
      normalizeRemediationStep (StepString (a @ '': '' @ b)) k =
        \<lparr>step = real (k + 1), instruction = a,
         code = (if trim b = [] then None else Some (trim b)), filePath = None\<rparr>)
   \<and> (\<not> includes_str (a @ '':'') '': '' \<and> 50 \<le> length a \<longrightarrow>
      normalizeRemediationStep (StepString (a @ '': '' @ b)) k =
        \<lparr>step = real (k + 1), instruction = a @ '': '' @ b, code = None, filePath = None\<rparr>)
   \<and> (\<not> includes_str s '': '' \<longrightarrow>
      normalizeRemediationStep (StepString s) k =
        \<lparr>step = real (k + 1), instruction = s, code = None, filePath = None\<rparr>)
   \<and> normalizeRemediationStep (StepObject obj) k =
        \<lparr>step = (case raw_step obj of Some n \<Rightarrow> n | None \<Rightarrow> real (k + 1)),
         instruction = (case raw_instruction obj of Some i \<Rightarrow> i | None \<Rightarrow> []),
         code = raw_code obj,
         filePath = (case raw_file_path obj of Some p \<Rightarrow> Some p | None \<Rightarrow> raw_filePath obj)\<rparr>
   \<and> length (normalizeRemediationSteps (IsArray steps)) = length steps
   \<and> (\<forall>j < length steps.
        normalizeRemediationSteps (IsArray steps) ! j = normalizeRemediationStep (steps ! j) j)
   \<and> normalizeRemediationSteps (IsArray [StepString ''Run install: npm install -g tool'']) =
        [\<lparr>step = 1, instruction = ''Run install'', code = Some ''npm install -g tool'',
          filePath = None\<rparr>]
   \<and> normalizeRemediationSteps (IsArray [StepString ''Restart the service'']) =
        [\<lparr>step = 1, instruction = ''Restart the service'', code = None, filePath = None\<rparr>]"
proof (intro conjI impI allI)
  show "normalizeRemediationStep (StepObject obj) k =
        \<lparr>step = (case raw_step obj of Some n \<Rightarrow> n | None \<Rightarrow> real (k + 1)),
         instruction = (case raw_instruction obj of Some i \<Rightarrow> i | None \<Rightarrow> []),
         code = raw_code obj,
         filePath = (case raw_file_path obj of Some p \<Rightarrow> Some p | None \<Rightarrow> raw_filePath obj)\<rparr>"
    by (simp add: normalizeRemediationStep_def nullish_def nullish_default_def add.commute
        split: option.splits)
  show "length (normalizeRemediationSteps (IsArray steps)) = length steps"
    by (simp add: normalizeRemediationSteps_def)
  show "normalizeRemediationSteps (IsArray [StepString ''Run install: npm install -g tool'']) =
        [\<lparr>step = 1, instruction = ''Run install'', code = Some ''npm install -g tool'',
          filePath = None\<rparr>]"
    by (simp add: normalizeRemediationSteps_def normalizeRemediationStep_def startsWith_def
        Let_def substring_to_def substring_from_def trim_def white_space_def)
  show "normalizeRemediationSteps (IsArray [StepString ''Restart the service'']) =
        [\<lparr>step = 1, instruction = ''Restart the service'', code = None, filePath = None\<rparr>]"
    by (simp add: normalizeRemediationSteps_def normalizeRemediationStep_def startsWith_def
        Let_def)
  show "normalizeRemediationStep (StepString (a @ '': '' @ b)) k =
        \<lparr>step = real (k + 1), instruction = a,
         code = (if trim b = [] then None else Some (trim b)), filePath = None\<rparr>"
    if "\<not> includes_str (a @ '':'') '': '' \<and> length a < 50"
    using that step_string_split by blast
  show "normalizeRemediationStep (StepString (a @ '': '' @ b)) k =
        \<lparr>step = real (k + 1), instruction = a @ '': '' @ b, code = None, filePath = None\<rparr>"
    if "\<not> includes_str (a @ '':'') '': '' \<and> 50 \<le> length a"
    using that step_string_late_colon by blast
  show "normalizeRemediationStep (StepString s) k =
        \<lparr>step = real (k + 1), instruction = s, code = None, filePath = None\<rparr>"
    if "\<not> includes_str s '': ''"
    using that by (rule step_string_no_colon)
  show "normalizeRemediationSteps (IsArray steps) ! j = normalizeRemediationStep (steps ! j) j"
    if "j < length steps" for j
    using that by (rule steps_nth)
qed

theorem remediation_step_normalization_witness:
  "\<not> includes_str ''Run install:'' '': '' \<and> length ''Run install'' < 50
   \<and> normalizeRemediationStep (StepString ''Run install: npm install -g tool'') 0 =
       \<lparr>step = 1, instruction = ''Run install'', code = Some ''npm install -g tool'',
        filePath = None\<rparr>
   \<and> \<not> includes_str ''Restart the service'' '': ''
   \<and> normalizeRemediationStep (StepString ''Restart the service'') 0 =
       \<lparr>step = 1, instruction = ''Restart the service'', code = None, filePath = None\<rparr>
   \<and> normalizeRemediationSteps (IsArray [StepString ''Note: '', StepObject no_step]) ! 1 =
       \<lparr>step = 2, instruction = [], code = None, filePath = None\<rparr>"
  using remediation_step_normalization
    [where a = "''Run install''" and b = "''npm install -g tool''" and k = 0
       and s = "''Restart the service''" and obj = no_step
       and steps = "[StepString ''Note: '', StepObject no_step]"]
  by (simp add: startsWith_def trim_def white_space_def no_step_def
      normalizeRemediationStep_def nullish_def nullish_default_def)

section \<open>Properties of the main process\<close>

lemma validate_loop_strings:
  "validate_loop (map JString names) acc =
     (case find (\<lambda>n. sanitize_module n \<notin> ALLOWED_MODULES) names of
        Some bad \<Rightarrow> Inl (InvalidModule (sanitize_module bad))
      | None \<Rightarrow> Inr (acc @ map sanitize_module names))"
  by (induction names arbitrary: acc) (auto simp: Let_def split: option.splits)

lemma validate_loop_other:
  "JOther \<in> set ms \<Longrightarrow> \<exists>e. validate_loop ms acc = Inl e"
  by (induction ms acc rule: validate_loop.induct) (auto simp: Let_def)

lemma validate_loop_allowed:
  "validate_loop ms acc = Inr vs \<Longrightarrow> set acc \<subseteq> ALLOWED_MODULES \<Longrightarrow> set vs \<subseteq> ALLOWED_MODULES"
  by (induction ms acc rule: validate_loop.induct) (auto simp: Let_def split: if_splits)

lemma validateModules_allowed:
  assumes "validateModules modules = Inr vs"
  shows "vs \<noteq> [] \<and> set vs \<subseteq> ALLOWED_MODULES"
proof (cases modules)
  case NotAnArray
  with assms show ?thesis by (simp add: validateModules_def)
next
  case (IsArray ms)
  with assms have l: "validate_loop ms [] = Inr vs" and ne: "vs \<noteq> []"
    by (auto simp: validateModules_def split: sum.splits if_splits)
  from validate_loop_allowed [OF l] ne show ?thesis by simp
qed

lemma validateModules_other:
  assumes "JOther \<in> set ms"
  shows "\<exists>e. validateModules (IsArray ms) = Inl e"
proof -
  from validate_loop_other [OF assms, of "[]"] obtain e where "validate_loop ms [] = Inl e"
    by blast
  then show ?thesis by (simp add: validateModules_def)
qed

text \<open>
  Claim C6, as stated, fails: the id \<open>PORT!\<close> is outside the whitelist, yet validation
  accepts it as \<open>port\<close> and the scanner process is spawned.
\<close>

theorem module_id_coerced_counterexample:
  "''PORT!'' \<notin> ALLOWED_MODULES
   \<and> validateModules (IsArray [JString ''PORT!'']) = Inr [''port'']
   \<and> scanner_start (Some ''python'') initial_state (IsArray [JString ''PORT!'']) =
       (\<lparr>pythonProcess = Some 0, running = [0], spawned = 1\<rparr>, ScannerSpawned 0 [''port''])"
  by (simp add: ALLOWED_MODULES_def validateModules_def sanitize_module_def toLowerCase_def
      toLowerCase_char_def lower_letters_def upper_letters_def digits_def Let_def
      scanner_start_def initial_state_def)

text \<open>
  Claim C6, amended. Every submitted id is first sanitized (lower-cased, and every
  character other than a-z, 0-9 and the underscore deleted), and it is the sanitized id
  that is tested against the whitelist and passed on. A list of strings is rejected
  with a descriptive error if it is empty or the sanitized form of one of its ids is
  outside the whitelist (the error names the first such form); otherwise the
  sanitized ids are returned. A value that is not an array, or an array with an
  element that is not a string, is rejected. Whatever is returned is a non-empty list of
  whitelisted ids. When validation fails, the start handler reports the failure and
  leaves the state as it was: no scanner process is spawned.
\<close>

theorem module_validation:
  "validateModules NotAnArray = Inl ModulesNotArray
   \<and> validateModules (IsArray (map JString names)) =
       (if names = [] then Inl NoValidModule
        else case find (\<lambda>n. sanitize_module n \<notin> ALLOWED_MODULES) names of
               Some bad \<Rightarrow> Inl (InvalidModule (sanitize_module bad))
             | None \<Rightarrow> Inr (map sanitize_module names))
   \<and> (JOther \<in> set ms \<longrightarrow> (\<exists>e. validateModules (IsArray ms) = Inl e))
   \<and> (validateModules modules = Inr vs \<longrightarrow> vs \<noteq> [] \<and> set vs \<subseteq> ALLOWED_MODULES)
   \<and> (validateModules modules = Inl e \<longrightarrow>
        scanner_start pythonCmd st modules = (st, ValidationFailed e))"
proof (intro conjI impI)
  show "validateModules NotAnArray = Inl ModulesNotArray"
    by (simp add: validateModules_def)
  show "validateModules (IsArray (map JString names)) =
       (if names = [] then Inl NoValidModule
        else case find (\<lambda>n. sanitize_module n \<notin> ALLOWED_MODULES) names of
               Some bad \<Rightarrow> Inl (InvalidModule (sanitize_module bad))
             | None \<Rightarrow> Inr (map sanitize_module names))"
    by (simp add: validateModules_def validate_loop_strings split: option.splits)
  show "\<exists>e. validateModules (IsArray ms) = Inl e" if "JOther \<in> set ms"
    using that by (rule validateModules_other)
  show "vs \<noteq> []" if "validateModules modules = Inr vs"
    using validateModules_allowed [OF that] by simp
  show "set vs \<subseteq> ALLOWED_MODULES" if "validateModules modules = Inr vs"
    using validateModules_allowed [OF that] by simp
  show "scanner_start pythonCmd st modules = (st, ValidationFailed e)"
    if "validateModules modules = Inl e"
    using that by (simp add: scanner_start_def)
qed

theorem module_validation_witness:
  "validateModules (IsArray (map JString [''port'', ''rm -rf''])) = Inl (InvalidModule ''rmrf'')
   \<and> scanner_start (Some ''python'') initial_state (IsArray (map JString [''port'', ''rm -rf'']))
       = (initial_state, ValidationFailed (InvalidModule ''rmrf''))
   \<and> JOther \<in> set [JString ''port'', JOther]
   \<and> (\<exists>e. validateModules (IsArray [JString ''port'', JOther]) = Inl e)
   \<and> validateModules (IsArray (map JString [''network'', ''Config''])) =
       Inr [''network'', ''config'']
   \<and> set [''network'', ''config''] \<subseteq> ALLOWED_MODULES"
proof -
  have san: "sanitize_module ''port'' = ''port''" "sanitize_module ''rm -rf'' = ''rmrf''"
    "sanitize_module ''network'' = ''network''" "sanitize_module ''Config'' = ''config''"
    by (simp_all add: sanitize_module_def toLowerCase_def toLowerCase_char_def lower_letters_def
        upper_letters_def digits_def)
  have mem: "''port'' \<in> ALLOWED_MODULES" "''rmrf'' \<notin> ALLOWED_MODULES"
    "''network'' \<in> ALLOWED_MODULES" "''config'' \<in> ALLOWED_MODULES"
    by (simp_all add: ALLOWED_MODULES_def)
  note bad =
    module_validation
      [where names = "[''port'', ''rm -rf'']" and ms = "[JString ''port'', JOther]"
         and modules = "IsArray (map JString [''port'', ''rm -rf''])"
         and e = "InvalidModule ''rmrf''" and pythonCmd = "Some ''python''"
         and st = initial_state]
  note good =
    module_validation
      [where names = "[''network'', ''Config'']"
         and modules = "IsArray (map JString [''network'', ''Config''])"
         and vs = "[''network'', ''config'']"]
  from bad have b1:
    "validateModules (IsArray (map JString [''port'', ''rm -rf''])) = Inl (InvalidModule ''rmrf'')"
    by (simp only: san mem find.simps list.simps option.simps if_True if_False not_True_eq_False
        not_False_eq_True)
  from bad b1 have b2:
    "scanner_start (Some ''python'') initial_state (IsArray (map JString [''port'', ''rm -rf'']))
       = (initial_state, ValidationFailed (InvalidModule ''rmrf''))"
    by blast
  have b3: "JOther \<in> set [JString ''port'', JOther]"
    by simp
  from bad b3 have b4: "\<exists>e. validateModules (IsArray [JString ''port'', JOther]) = Inl e"
    by blast
  from good have g1:
    "validateModules (IsArray (map JString [''network'', ''Config''])) =
       Inr [''network'', ''config'']"
    by (simp only: san mem find.simps list.simps option.simps if_True if_False not_True_eq_False
        not_False_eq_True)
  from good g1 have g2: "set [''network'', ''config''] \<subseteq> ALLOWED_MODULES"
    by blast
  from b1 b2 b3 b4 g1 g2 show ?thesis
    by blast
qed

lemma scanner_start_spawns:
  assumes "validateModules modules = Inr vs"
  shows "scanner_start (Some cmd) st modules =
           (\<lparr>pythonProcess = Some (spawned st), running = running st @ [spawned st],
             spawned = spawned st + 1\<rparr>, ScannerSpawned (spawned st) vs)"
  using assms by (simp add: scanner_start_def)

text \<open>
  Claim C5 does not hold of the handlers. Two start requests in a row: the second one
  is not rejected and does not cancel the first scan; two scanner processes run, and
  only the second is tracked. A cancel request then terminates the second process and
  leaves the first one running with nothing tracked.
\<close>

theorem two_scans_in_flight:
  "handle_requests (Some ''python'')
     [ScannerStart (IsArray [JString ''port'']), ScannerStart (IsArray [JString ''port''])] =
     \<lparr>pythonProcess = Some 1, running = [0, 1], spawned = 2\<rparr>
   \<and> handle_requests (Some ''python'')
     [ScannerStart (IsArray [JString ''port'']), ScannerStart (IsArray [JString ''port'']),
      ScannerCancel] =
     \<lparr>pythonProcess = None, running = [0], spawned = 2\<rparr>"
  by (simp add: handle_requests_def initial_state_def scanner_start_def scanner_cancel_def
      ALLOWED_MODULES_def validateModules_def sanitize_module_def toLowerCase_def
      toLowerCase_char_def lower_letters_def upper_letters_def digits_def Let_def)

lemma set_remove_drive_letter: "set (remove_drive_letter cs) \<subseteq> set cs"
  by (induction cs rule: remove_drive_letter.induct) auto

lemma set_remove_leading_slash: "set (remove_leading_slash cs) \<subseteq> set cs"
  by (cases cs) auto

text \<open>
  What the sanitization of the export filename does achieve: the result has none of
  the characters \<open>< > : " | ? * \ /\<close>, at most 255 characters, and is not empty.
\<close>

lemma export_filename_safe_chars:
  "set (validateExportOptions options) \<inter> set reserved_chars = {}
   \<and> length (validateExportOptions options) \<le> 255
   \<and> validateExportOptions options \<noteq> []"
proof -
  have d: "set ''report.html'' \<inter> set reserved_chars = {}"
    by (simp add: reserved_chars_def)
  have s: "set (take 255 (remove_leading_slash (remove_drive_letter (remove_reserved n))))
             \<inter> set reserved_chars = {}" for n
  proof -
    have "set (take 255 (remove_leading_slash (remove_drive_letter (remove_reserved n))))
            \<subseteq> set (remove_reserved n)"
      using set_take_subset set_remove_leading_slash set_remove_drive_letter
      by (meson subset_trans)
    moreover have "set (remove_reserved n) \<inter> set reserved_chars = {}"
      by (auto simp: remove_reserved_def)
    ultimately show ?thesis by blast
  qed
  show ?thesis
  proof (cases options)
    case NotAnObject
    then show ?thesis using d by (simp add: validateExportOptions_def)
  next
    case (Options fn)
    show ?thesis
    proof (cases fn)
      case None
      with Options show ?thesis using d by (simp add: validateExportOptions_def)
    next
      case (Some name)
      with Options show ?thesis
        using d s [of "remove_dotdot name"]
        by (simp add: validateExportOptions_def Let_def)
    qed
  qed
qed

text \<open>
  Claim C7 does not hold of \<open>validateExportOptions\<close>. The colon of \<open>C:\evil.html\<close> is
  deleted with the reserved characters before the drive-letter pattern is tried, so the
  pattern never matches and the drive letter stays; and deleting the reserved
  characters after the \<open>..\<close> sequences lets \<open>./.\<close> become \<open>..\<close>. The traversal input
  of the claim, \<open>../../etc/passwd\<close>, does lose its dots and slashes.
\<close>

theorem export_filename_drive_letter_kept:
  "validateExportOptions (Options (Some (''C:'' @ [CHR 0x5C] @ ''evil.html''))) = ''Cevil.html''
   \<and> validateExportOptions (Options (Some ''./.'')) = ''..''
   \<and> validateExportOptions (Options (Some ''../../etc/passwd'')) = ''etcpasswd''"
  by (simp add: validateExportOptions_def remove_reserved_def reserved_chars_def
      upper_letters_def lower_letters_def trim_def white_space_def Let_def)

section \<open>Properties of the findings order and of the views\<close>

lemma sortFindingsForDevView_split:
  "sortFindingsForDevView fs =
     filter isPriorityFinding fs @
     sort_key (\<lambda>f. SEVERITY_PRIORITY (severity f)) (filter (\<lambda>f. \<not> isPriorityFinding f) fs)"
  by (simp add: sortFindingsForDevView_def Let_def)

lemma SEVERITY_PRIORITY_inj: "SEVERITY_PRIORITY a = SEVERITY_PRIORITY b \<longleftrightarrow> a = b"
  by (cases a; cases b) simp_all

text \<open>
  In a list made of a part whose elements all satisfy \<open>Q\<close> followed by a part whose
  elements all fail it, an element that fails \<open>Q\<close> is never before one that satisfies it.
\<close>

lemma two_parts_order:
  assumes "list_all Q pre" and "list_all (\<lambda>x. \<not> Q x) post"
    and "j < length (pre @ post)" and "Q ((pre @ post) ! j)" and "i < j"
  shows "i < length pre \<and> j < length pre"
proof -
  have "j < length pre"
  proof (rule ccontr)
    assume "\<not> j < length pre"
    then have "(pre @ post) ! j = post ! (j - length pre)" and "j - length pre < length post"
      using assms(3) by (auto simp: nth_append)
    then have "\<not> Q ((pre @ post) ! j)"
      using assms(2) by (simp add: list_all_length)
    with assms(4) show False by simp
  qed
  with assms(5) show ?thesis by simp
qed

lemma two_parts_tail:
  assumes "list_all Q pre" and "i < length (pre @ post)" and "\<not> Q ((pre @ post) ! i)"
  shows "length pre \<le> i"
proof (rule ccontr)
  assume "\<not> length pre \<le> i"
  then have "i < length pre" by simp
  then have "Q ((pre @ post) ! i)"
    using assms(1) by (simp add: nth_append list_all_length)
  with assms(3) show False by simp
qed

text \<open>
  Claim C9, as stated, fails: a finding that is a priority advisory by its title is placed
  before a later finding that bears the reserved id.
\<close>

theorem reserved_id_not_first_counterexample:
  "sortFindingsForDevView
     [sample_finding ''CLAWD-CONFIG-002'' ''Gateway not installed'' LOW,
      sample_finding ''CLAWD-INSTALL-001'' ''Setup advisory'' INFO] =
     [sample_finding ''CLAWD-CONFIG-002'' ''Gateway not installed'' LOW,
      sample_finding ''CLAWD-INSTALL-001'' ''Setup advisory'' INFO]
   \<and> id_field (sample_finding ''CLAWD-INSTALL-001'' ''Setup advisory'' INFO) = PRIORITY_FINDING_ID
   \<and> id_field (sample_finding ''CLAWD-CONFIG-002'' ''Gateway not installed'' LOW)
       \<noteq> PRIORITY_FINDING_ID"
  by (simp add: sortFindingsForDevView_def isPriorityFinding_def sample_finding_def
      PRIORITY_FINDING_ID_def toLowerCase_def toLowerCase_char_def upper_letters_def
      lower_letters_def startsWith_def Let_def)

text \<open>
  Claim C9, amended. \<open>sortFindingsForDevView\<close> returns a permutation of the findings in
  which every priority advisory (\<open>isPriorityFinding\<close>: the reserved id or one of the title
  phrases; in particular every finding with the reserved id) comes before every
  other finding, regardless of severity; the priority advisories keep their order; the
  other findings follow in the order CRITICAL, HIGH, MEDIUM, LOW, INFO, those of one
  severity in their input order.
\<close>

theorem dev_view_order:
  "mset (sortFindingsForDevView fs) = mset fs
   \<and> (id_field f = PRIORITY_FINDING_ID \<longrightarrow> isPriorityFinding f)
   \<and> (\<forall>i j. i < j \<and> j < length (sortFindingsForDevView fs)
         \<and> isPriorityFinding (sortFindingsForDevView fs ! j)
         \<longrightarrow> isPriorityFinding (sortFindingsForDevView fs ! i))
   \<and> (\<forall>i j. i < j \<and> j < length (sortFindingsForDevView fs)
         \<and> \<not> isPriorityFinding (sortFindingsForDevView fs ! i)
         \<longrightarrow> SEVERITY_PRIORITY (severity (sortFindingsForDevView fs ! i))
             \<le> SEVERITY_PRIORITY (severity (sortFindingsForDevView fs ! j)))
   \<and> filter isPriorityFinding (sortFindingsForDevView fs) = filter isPriorityFinding fs
   \<and> filter (\<lambda>g. \<not> isPriorityFinding g \<and> severity g = s) (sortFindingsForDevView fs) =
       filter (\<lambda>g. \<not> isPriorityFinding g \<and> severity g = s) fs
   \<and> SEVERITY_PRIORITY CRITICAL < SEVERITY_PRIORITY HIGH
   \<and> SEVERITY_PRIORITY HIGH < SEVERITY_PRIORITY MEDIUM
   \<and> SEVERITY_PRIORITY MEDIUM < SEVERITY_PRIORITY LOW
   \<and> SEVERITY_PRIORITY LOW < SEVERITY_PRIORITY INFO"
proof -
  define key where "key = (\<lambda>g::Finding. SEVERITY_PRIORITY (severity g))"
  define pre where "pre = filter isPriorityFinding fs"
  define post where "post = sort_key key (filter (\<lambda>g. \<not> isPriorityFinding g) fs)"
  have r: "sortFindingsForDevView fs = pre @ post"
    by (simp add: sortFindingsForDevView_split pre_def post_def key_def)
  have pre_all: "list_all isPriorityFinding pre"
    by (simp add: pre_def list_all_iff)
  have post_all: "list_all (\<lambda>g. \<not> isPriorityFinding g) post"
    by (simp add: post_def list_all_iff)
  have post_sorted: "sorted (map key post)"
    by (simp add: post_def)
  have perm: "mset (sortFindingsForDevView fs) = mset fs"
    by (simp add: r pre_def post_def)
  have before: "isPriorityFinding ((pre @ post) ! i)"
    if "i < j \<and> j < length (pre @ post) \<and> isPriorityFinding ((pre @ post) ! j)" for i j
  proof -
    from that two_parts_order [OF pre_all post_all, of j i] have "i < length pre"
      by blast
    then show ?thesis
      using pre_all by (simp add: nth_append list_all_length)
  qed
  have ordered: "key ((pre @ post) ! i) \<le> key ((pre @ post) ! j)"
    if "i < j \<and> j < length (pre @ post) \<and> \<not> isPriorityFinding ((pre @ post) ! i)" for i j
  proof -
    from that have i: "i < length (pre @ post)" by simp
    from that two_parts_tail [OF pre_all i] have le: "length pre \<le> i"
      by blast
    with that have idx: "i - length pre < j - length pre" "j - length pre < length post"
      by auto
    have "(pre @ post) ! i = post ! (i - length pre)" "(pre @ post) ! j = post ! (j - length pre)"
      using le that by (auto simp: nth_append)
    moreover have "key (post ! (i - length pre)) \<le> key (post ! (j - length pre))"
      using sorted_nth_mono [OF post_sorted, of "i - length pre" "j - length pre"] idx
      by simp
    ultimately show ?thesis by simp
  qed
  have keep: "filter isPriorityFinding (pre @ post) = filter isPriorityFinding fs"
  proof -
    have "filter isPriorityFinding post = []"
      using post_all by (simp add: list_all_iff filter_empty_conv)
    then show ?thesis by (simp add: pre_def)
  qed
  have stable: "filter (\<lambda>g. \<not> isPriorityFinding g \<and> severity g = s) (pre @ post) =
       filter (\<lambda>g. \<not> isPriorityFinding g \<and> severity g = s) fs"
  proof -
    have "filter (\<lambda>g. \<not> isPriorityFinding g \<and> severity g = s) pre = []"
      by (simp add: pre_def filter_empty_conv)
    moreover have "filter (\<lambda>g. severity g = s) post =
        filter (\<lambda>g. key g = SEVERITY_PRIORITY s) post"
      by (simp add: key_def SEVERITY_PRIORITY_inj)
    moreover have "filter (\<lambda>g. key g = SEVERITY_PRIORITY s) post =
        filter (\<lambda>g. key g = SEVERITY_PRIORITY s) (filter (\<lambda>g. \<not> isPriorityFinding g) fs)"
      unfolding post_def by (rule sort_key_stable)
    moreover have "filter (\<lambda>g. key g = SEVERITY_PRIORITY s) (filter (\<lambda>g. \<not> isPriorityFinding g) fs)
        = filter (\<lambda>g. severity g = s) (filter (\<lambda>g. \<not> isPriorityFinding g) fs)"
      by (simp add: key_def SEVERITY_PRIORITY_inj)
    moreover have "filter (\<lambda>g. \<not> isPriorityFinding g \<and> severity g = s) post =
        filter (\<lambda>g. severity g = s) post"
      using post_all by (intro filter_cong) (auto simp: list_all_iff)
    ultimately show ?thesis
      by (simp add: conj_commute)
  qed
  have reserved: "isPriorityFinding f" if "id_field f = PRIORITY_FINDING_ID"
    using that by (simp add: isPriorityFinding_def)
  show ?thesis
    unfolding r
  proof (intro conjI allI impI)
    show "mset (pre @ post) = mset fs"
      using perm by (simp add: r)
    show "isPriorityFinding f" if "id_field f = PRIORITY_FINDING_ID"
      using that by (rule reserved)
    show "isPriorityFinding ((pre @ post) ! i)"
      if "i < j \<and> j < length (pre @ post) \<and> isPriorityFinding ((pre @ post) ! j)" for i j
      using that by (rule before)
    show "SEVERITY_PRIORITY (severity ((pre @ post) ! i))
            \<le> SEVERITY_PRIORITY (severity ((pre @ post) ! j))"
      if "i < j \<and> j < length (pre @ post) \<and> \<not> isPriorityFinding ((pre @ post) ! i)" for i j
      using ordered [OF that] by (simp add: key_def)
    show "filter isPriorityFinding (pre @ post) = filter isPriorityFinding fs"
      by (rule keep)
    show "filter (\<lambda>g. \<not> isPriorityFinding g \<and> severity g = s) (pre @ post) =
       filter (\<lambda>g. \<not> isPriorityFinding g \<and> severity g = s) fs"
      by (rule stable)
  qed simp_all
qed

theorem dev_view_order_witness:
  "sortFindingsForDevView
     [sample_finding ''CLAWD-PERM-003'' ''World-readable'' LOW,
      sample_finding ''CLAWD-CONFIG-002'' ''Not installed'' INFO,
      sample_finding ''CLAWD-PORT-001'' ''Open port'' CRITICAL,
      sample_finding ''CLAWD-INSTALL-001'' ''Setup'' INFO] =
     [sample_finding ''CLAWD-CONFIG-002'' ''Not installed'' INFO,
      sample_finding ''CLAWD-INSTALL-001'' ''Setup'' INFO,
      sample_finding ''CLAWD-PORT-001'' ''Open port'' CRITICAL,
      sample_finding ''CLAWD-PERM-003'' ''World-readable'' LOW]
   \<and> id_field (sample_finding ''CLAWD-INSTALL-001'' ''Setup'' INFO) = PRIORITY_FINDING_ID
   \<and> isPriorityFinding (sample_finding ''CLAWD-INSTALL-001'' ''Setup'' INFO)
   \<and> isPriorityFinding (sample_finding ''CLAWD-CONFIG-002'' ''Not installed'' INFO)
   \<and> \<not> isPriorityFinding (sample_finding ''CLAWD-PORT-001'' ''Open port'' CRITICAL)
   \<and> SEVERITY_PRIORITY (severity (sample_finding ''CLAWD-PORT-001'' ''Open port'' CRITICAL))
       \<le> SEVERITY_PRIORITY (severity (sample_finding ''CLAWD-PERM-003'' ''World-readable'' LOW))"
proof -
  define L where "L = sample_finding ''CLAWD-PERM-003'' ''World-readable'' LOW"
  define A where "A = sample_finding ''CLAWD-CONFIG-002'' ''Not installed'' INFO"
  define C where "C = sample_finding ''CLAWD-PORT-001'' ''Open port'' CRITICAL"
  define B where "B = sample_finding ''CLAWD-INSTALL-001'' ''Setup'' INFO"
  have idB: "id_field B = PRIORITY_FINDING_ID"
    by (simp add: B_def sample_finding_def PRIORITY_FINDING_ID_def)
  have pL: "\<not> isPriorityFinding L"
    by (simp add: L_def isPriorityFinding_def sample_finding_def PRIORITY_FINDING_ID_def
        toLowerCase_def toLowerCase_char_def upper_letters_def lower_letters_def startsWith_def)
  have pA: "isPriorityFinding A"
    by (simp add: A_def isPriorityFinding_def sample_finding_def PRIORITY_FINDING_ID_def
        toLowerCase_def toLowerCase_char_def upper_letters_def lower_letters_def startsWith_def)
  have pC: "\<not> isPriorityFinding C"
    by (simp add: C_def isPriorityFinding_def sample_finding_def PRIORITY_FINDING_ID_def
        toLowerCase_def toLowerCase_char_def upper_letters_def lower_letters_def startsWith_def)
  have sev: "severity L = LOW" "severity C = CRITICAL"
    by (simp_all add: L_def C_def sample_finding_def)
  note t = dev_view_order [of "[L, A, C, B]" B CRITICAL]
  from t idB have pB: "isPriorityFinding B"
    by blast
  have r: "sortFindingsForDevView [L, A, C, B] = [A, B, C, L]"
    by (simp add: sortFindingsForDevView_def Let_def pL pA pC pB sev)
  from t have "2 < (3::nat) \<and> 3 < length (sortFindingsForDevView [L, A, C, B])
         \<and> \<not> isPriorityFinding (sortFindingsForDevView [L, A, C, B] ! 2)
         \<longrightarrow> SEVERITY_PRIORITY (severity (sortFindingsForDevView [L, A, C, B] ! 2))
             \<le> SEVERITY_PRIORITY (severity (sortFindingsForDevView [L, A, C, B] ! 3))"
    by blast
  then have le: "SEVERITY_PRIORITY (severity C) \<le> SEVERITY_PRIORITY (severity L)"
    by (simp add: r pC)
  from r idB pB pA pC le show ?thesis
    unfolding L_def A_def C_def B_def by blast
qed

lemma foldl_groups:
  "foldl (\<lambda>groups finding. groups(severity finding := groups (severity finding) @ [finding])) g fs s
     = g s @ filter (\<lambda>f. severity f = s) fs"
  by (induction fs arbitrary: g) auto

lemma groupFindingsBySeverity_filter:
  "groupFindingsBySeverity fs s = filter (\<lambda>f. severity f = s) fs"
  by (simp add: groupFindingsBySeverity_def foldl_groups)

lemma severity_groups_members:
  "b \<in> set (severity_groups grouped) \<Longrightarrow> \<exists>s. b = SeverityGroup s (grouped s)"
  by (auto simp: severity_groups_def SEVERITY_ORDER_def split: if_splits)

lemma severity_groups_all: "list_all is_group (severity_groups grouped)"
  using severity_groups_members by (fastforce simp: list_all_iff)

lemma alert_before_group:
  assumes "list_all (\<lambda>b. \<not> is_group b) pre" and "list_all is_group post"
    and "i < length (pre @ post)" and "j < length (pre @ post)"
    and "(pre @ post) ! i = PriorityAlert g" and "(pre @ post) ! j = SeverityGroup s gs"
  shows "i < j"
proof -
  have i: "i < length pre"
  proof (rule ccontr)
    assume "\<not> i < length pre"
    then have "(pre @ post) ! i = post ! (i - length pre)" and "i - length pre < length post"
      using assms(3) by (auto simp: nth_append)
    then have "is_group ((pre @ post) ! i)"
      using assms(2) by (simp add: list_all_length)
    with assms(5) show False by simp
  qed
  have j: "length pre \<le> j"
  proof (rule ccontr)
    assume "\<not> length pre \<le> j"
    then have "j < length pre" by simp
    then have "\<not> is_group ((pre @ post) ! j)"
      using assms(1) by (simp add: nth_append list_all_length)
    with assms(6) show False by simp
  qed
  from i j show ?thesis by simp
qed

lemma group_in_blocks:
  assumes "list_all (\<lambda>b. \<not> is_group b) pre"
    and "SeverityGroup s gs \<in> set (pre @ severity_groups grouped)"
  shows "gs = grouped s"
proof -
  from assms have "SeverityGroup s gs \<in> set (severity_groups grouped)"
    by (auto simp: list_all_iff)
  from severity_groups_members [OF this] show ?thesis by simp
qed

lemma applyFilter_passes: "f \<in> set (applyFilter flt fs) \<longleftrightarrow> f \<in> set fs \<and> passes_filter flt f"
  by (cases flt) (auto simp: applyFilter_def passes_filter_def)

lemma title_phrase_priority: "title_has_phrase f \<Longrightarrow> isPriorityFinding f"
  by (auto simp: title_has_phrase_def isPriorityFinding_def)

lemma view_layout:
  assumes pre: "list_all (\<lambda>b. \<not> is_group b) pre"
    and groups: "\<And>s g. g \<in> set (grouped s) \<Longrightarrow> \<not> isPriorityFinding g"
  shows "(\<forall>i j g s gs. i < length (pre @ severity_groups grouped)
            \<and> j < length (pre @ severity_groups grouped)
            \<and> (pre @ severity_groups grouped) ! i = PriorityAlert g
            \<and> (pre @ severity_groups grouped) ! j = SeverityGroup s gs \<longrightarrow> i < j)
       \<and> (\<forall>s gs g. SeverityGroup s gs \<in> set (pre @ severity_groups grouped) \<and> g \<in> set gs
            \<longrightarrow> \<not> isPriorityFinding g)"
proof (intro conjI allI impI)
  fix i j g s gs
  assume "i < length (pre @ severity_groups grouped)
            \<and> j < length (pre @ severity_groups grouped)
            \<and> (pre @ severity_groups grouped) ! i = PriorityAlert g
            \<and> (pre @ severity_groups grouped) ! j = SeverityGroup s gs"
  then show "i < j"
    using alert_before_group [OF pre severity_groups_all] by blast
next
  fix s gs g
  assume a: "SeverityGroup s gs \<in> set (pre @ severity_groups grouped) \<and> g \<in> set gs"
  then have "gs = grouped s"
    using group_in_blocks [OF pre] by blast
  with a show "\<not> isPriorityFinding g"
    using groups by blast
qed

lemma DevFindingsDisplay_blocks:
  "DevFindingsDisplay complete (Some res) flt =
     Some ((map PriorityAlert (filter isPriorityFinding (applyFilter flt (findings res))) @
            (if applyFilter flt (findings res) = [] then [NoFindingsMessage] else [])) @
           severity_groups
             (groupFindingsBySeverity
                (filter (\<lambda>f. \<not> isPriorityFinding f) (applyFilter flt (findings res)))))"
  by (simp add: DevFindingsDisplay_def Let_def)

lemma UserFindingsDisplay_blocks:
  "UserFindingsDisplay complete (Some res) flt =
     Some (((if applyFilter flt (findings res) = [] then [NoFindingsMessage] else []) @
            map PriorityAlert (filter isPriorityFinding (applyFilter flt (findings res)))) @
           severity_groups
             (\<lambda>s. filter (\<lambda>f. \<not> isPriorityFinding f)
                    (groupFindingsBySeverity (applyFilter flt (findings res)) s)))"
  by (simp add: UserFindingsDisplay_def Let_def)

text \<open>
  Claim C10, as stated, fails: with the severity filter set to CRITICAL, a finding of
  severity INFO whose title contains "not installed" is shown in neither view.
\<close>

theorem filtered_advisory_counterexample:
  "title_has_phrase (sample_finding ''CLAWD-CONFIG-002'' ''Not installed'' INFO)
   \<and> DevFindingsDisplay complete
       (Some (sample_result [sample_finding ''CLAWD-CONFIG-002'' ''Not installed'' INFO,
                             sample_finding ''CLAWD-PORT-001'' ''Open port'' CRITICAL]))
       (Only CRITICAL) =
       Some [SeverityGroup CRITICAL [sample_finding ''CLAWD-PORT-001'' ''Open port'' CRITICAL]]
   \<and> UserFindingsDisplay complete
       (Some (sample_result [sample_finding ''CLAWD-CONFIG-002'' ''Not installed'' INFO,
                             sample_finding ''CLAWD-PORT-001'' ''Open port'' CRITICAL]))
       (Only CRITICAL) =
       Some [SeverityGroup CRITICAL [sample_finding ''CLAWD-PORT-001'' ''Open port'' CRITICAL]]"
proof -
  define A where "A = sample_finding ''CLAWD-CONFIG-002'' ''Not installed'' INFO"
  define C where "C = sample_finding ''CLAWD-PORT-001'' ''Open port'' CRITICAL"
  have tA: "title_has_phrase A"
    by (simp add: A_def title_has_phrase_def sample_finding_def toLowerCase_def
        toLowerCase_char_def upper_letters_def lower_letters_def startsWith_def)
  have pC: "\<not> isPriorityFinding C"
    by (simp add: C_def isPriorityFinding_def sample_finding_def PRIORITY_FINDING_ID_def
        toLowerCase_def toLowerCase_char_def upper_letters_def lower_letters_def startsWith_def)
  have sev: "severity A = INFO" "severity C = CRITICAL"
    by (simp_all add: A_def C_def sample_finding_def)
  have fl: "applyFilter (Only CRITICAL) (findings (sample_result [A, C])) = [C]"
    by (simp add: applyFilter_def sample_result_def sev)
  have d: "DevFindingsDisplay complete (Some (sample_result [A, C])) (Only CRITICAL) =
             Some [SeverityGroup CRITICAL [C]]"
    unfolding DevFindingsDisplay_blocks fl
    by (simp add: pC severity_groups_def SEVERITY_ORDER_def groupFindingsBySeverity_filter sev)
  have u: "UserFindingsDisplay complete (Some (sample_result [A, C])) (Only CRITICAL) =
             Some [SeverityGroup CRITICAL [C]]"
    unfolding UserFindingsDisplay_blocks fl
    by (simp add: pC severity_groups_def SEVERITY_ORDER_def groupFindingsBySeverity_filter sev)
  from tA d u show ?thesis
    unfolding A_def C_def by blast
qed

lemma applyFilter_filter: "applyFilter flt fs = filter (passes_filter flt) fs"
proof (cases flt)
  case ALL_FILTER
  have "filter (passes_filter ALL_FILTER) fs = fs"
    by (simp add: filter_id_conv passes_filter_def)
  with ALL_FILTER show ?thesis by (simp add: applyFilter_def)
next
  case (Only x)
  have "filter (\<lambda>f. severity f = x) fs = filter (passes_filter (Only x)) fs"
    by (rule filter_cong) (simp_all add: passes_filter_def)
  with Only show ?thesis by (simp add: applyFilter_def)
qed

lemma severity_groups_nonempty:
  "grouped s \<noteq> [] \<Longrightarrow> SeverityGroup s (grouped s) \<in> set (severity_groups grouped)"
  by (cases s) (simp_all add: severity_groups_def SEVERITY_ORDER_def)

text \<open>
  What a view shows, given what stands before its severity groups and how it groups.
\<close>

lemma view_content:
  assumes pre: "list_all (\<lambda>b. \<not> is_group b) pre"
    and alerts: "\<And>g. (PriorityAlert g \<in> set pre) =
                   (g \<in> set fs \<and> passes_filter flt g \<and> isPriorityFinding g)"
    and groups: "\<And>s. grouped s =
                   filter (\<lambda>g. passes_filter flt g \<and> \<not> isPriorityFinding g \<and> severity g = s) fs"
  shows "(\<forall>g. (PriorityAlert g \<in> set (pre @ severity_groups grouped)) =
               (g \<in> set fs \<and> passes_filter flt g \<and> isPriorityFinding g))
       \<and> (\<forall>s gs. SeverityGroup s gs \<in> set (pre @ severity_groups grouped) \<longrightarrow>
               gs = filter (\<lambda>g. passes_filter flt g \<and> \<not> isPriorityFinding g \<and> severity g = s) fs)
       \<and> (\<forall>g. g \<in> set fs \<and> passes_filter flt g \<and> \<not> isPriorityFinding g \<longrightarrow>
               (\<exists>gs. SeverityGroup (severity g) gs \<in> set (pre @ severity_groups grouped)
                     \<and> g \<in> set gs))
       \<and> (\<forall>g. \<not> passes_filter flt g \<longrightarrow>
               PriorityAlert g \<notin> set (pre @ severity_groups grouped)
               \<and> (\<forall>s gs. SeverityGroup s gs \<in> set (pre @ severity_groups grouped)
                     \<longrightarrow> g \<notin> set gs))"
proof -
  have no_alert: "PriorityAlert g \<notin> set (severity_groups grouped)" for g
    using severity_groups_members [of "PriorityAlert g" grouped] by auto
  have a: "(PriorityAlert g \<in> set (pre @ severity_groups grouped)) =
               (g \<in> set fs \<and> passes_filter flt g \<and> isPriorityFinding g)" for g
    using no_alert [of g] alerts [of g] by simp
  have b: "gs = filter (\<lambda>g. passes_filter flt g \<and> \<not> isPriorityFinding g \<and> severity g = s) fs"
    if "SeverityGroup s gs \<in> set (pre @ severity_groups grouped)" for s gs
    using group_in_blocks [OF pre that] groups [of s] by simp
  have c: "\<exists>gs. SeverityGroup (severity g) gs \<in> set (pre @ severity_groups grouped) \<and> g \<in> set gs"
    if "g \<in> set fs \<and> passes_filter flt g \<and> \<not> isPriorityFinding g" for g
  proof -
    from that have "g \<in> set (grouped (severity g))"
      by (simp add: groups)
    moreover from this have "grouped (severity g) \<noteq> []"
      by auto
    then have "SeverityGroup (severity g) (grouped (severity g))
                 \<in> set (pre @ severity_groups grouped)"
      using severity_groups_nonempty [of grouped "severity g"] by simp
    ultimately show ?thesis by blast
  qed
  have d1: "PriorityAlert g \<notin> set (pre @ severity_groups grouped)"
    if "\<not> passes_filter flt g" for g
    using that a [of g] by simp
  have d2: "g \<notin> set gs"
    if "\<not> passes_filter flt g" and "SeverityGroup s gs \<in> set (pre @ severity_groups grouped)"
    for g s gs
    using that(1) b [OF that(2)] by simp
  show ?thesis
  proof (intro conjI allI impI)
    show "(PriorityAlert g \<in> set (pre @ severity_groups grouped)) =
               (g \<in> set fs \<and> passes_filter flt g \<and> isPriorityFinding g)" for g
      by (rule a)
    show "gs = filter (\<lambda>g. passes_filter flt g \<and> \<not> isPriorityFinding g \<and> severity g = s) fs"
      if "SeverityGroup s gs \<in> set (pre @ severity_groups grouped)" for s gs
      using that by (rule b)
    show "\<exists>gs. SeverityGroup (severity g) gs \<in> set (pre @ severity_groups grouped) \<and> g \<in> set gs"
      if "g \<in> set fs \<and> passes_filter flt g \<and> \<not> isPriorityFinding g" for g
      using that by (rule c)
    show "PriorityAlert g \<notin> set (pre @ severity_groups grouped)"
      if "\<not> passes_filter flt g" for g
      using that by (rule d1)
    show "g \<notin> set gs"
      if "\<not> passes_filter flt g" and "SeverityGroup s gs \<in> set (pre @ severity_groups grouped)"
      for g s gs
      using that by (rule d2)
  qed
qed

text \<open>
  Claim C10, amended. A finding is a priority advisory if and only if its id is
  \<open>CLAWD-INSTALL-001\<close> or its lower-cased title contains "not installed" or "not
  configured". In the developer view and in the friendly view alike, every finding of
  the result whose title contains one of the phrases and that passes the active severity
  filter (every finding passes the filter "all") is rendered as a priority alert; every
  priority alert stands before every severity group; and no severity group holds a
  priority advisory. The priority alerts are exactly the priority advisories that pass
  the filter, the group of a severity holds exactly the other findings of that severity
  that pass the filter, each of them is in its group, and a finding that the severity
  filter excludes is not shown at all, neither as an alert nor in a group.
\<close>

theorem priority_findings_ahead_of_groups:
  "isPriorityFinding f = (id_field f = ''CLAWD-INSTALL-001'' \<or> title_has_phrase f)
   \<and> (view = DevFindingsDisplay \<or> view = UserFindingsDisplay \<longrightarrow>
       (\<exists>blocks. view complete (Some res) flt = Some blocks
          \<and> (f \<in> set (findings res) \<and> title_has_phrase f \<and> passes_filter flt f
               \<longrightarrow> PriorityAlert f \<in> set blocks)
          \<and> (\<forall>i j g s gs. i < length blocks \<and> j < length blocks
                \<and> blocks ! i = PriorityAlert g \<and> blocks ! j = SeverityGroup s gs \<longrightarrow> i < j)
          \<and> (\<forall>s gs g. SeverityGroup s gs \<in> set blocks \<and> g \<in> set gs
                \<longrightarrow> \<not> isPriorityFinding g)
          \<and> (\<forall>g. (PriorityAlert g \<in> set blocks) =
                (g \<in> set (findings res) \<and> passes_filter flt g \<and> isPriorityFinding g))
          \<and> (\<forall>s gs. SeverityGroup s gs \<in> set blocks \<longrightarrow>
                gs = filter (\<lambda>g. passes_filter flt g \<and> \<not> isPriorityFinding g \<and> severity g = s)
                       (findings res))
          \<and> (\<forall>g. g \<in> set (findings res) \<and> passes_filter flt g \<and> \<not> isPriorityFinding g \<longrightarrow>
                (\<exists>gs. SeverityGroup (severity g) gs \<in> set blocks \<and> g \<in> set gs))
          \<and> (\<forall>g. \<not> passes_filter flt g \<longrightarrow>
                PriorityAlert g \<notin> set blocks
                \<and> (\<forall>s gs. SeverityGroup s gs \<in> set blocks \<longrightarrow> g \<notin> set gs))))"
proof (intro conjI impI)
  show "isPriorityFinding f = (id_field f = ''CLAWD-INSTALL-001'' \<or> title_has_phrase f)"
    by (simp add: isPriorityFinding_def title_has_phrase_def PRIORITY_FINDING_ID_def)
next
  assume v: "view = DevFindingsDisplay \<or> view = UserFindingsDisplay"
  define filtered where "filtered = applyFilter flt (findings res)"
  define alerts where "alerts = map PriorityAlert (filter isPriorityFinding filtered)"
  define msg where "msg = (if filtered = [] then [NoFindingsMessage] else [])"
  have shown: "PriorityAlert f \<in> set alerts"
    if "f \<in> set (findings res) \<and> title_has_phrase f \<and> passes_filter flt f"
    using that title_phrase_priority [of f]
    by (auto simp: alerts_def filtered_def applyFilter_passes)
  have not_groups: "list_all (\<lambda>b. \<not> is_group b) (alerts @ msg)"
    "list_all (\<lambda>b. \<not> is_group b) (msg @ alerts)"
    by (auto simp: alerts_def msg_def list_all_iff)
  have in_alerts: "(PriorityAlert g \<in> set alerts) =
      (g \<in> set (findings res) \<and> passes_filter flt g \<and> isPriorityFinding g)" for g
    by (auto simp: alerts_def filtered_def applyFilter_passes)
  have not_msg: "PriorityAlert g \<notin> set msg" for g
    by (simp add: msg_def)
  have al: "(PriorityAlert g \<in> set (alerts @ msg)) =
      (g \<in> set (findings res) \<and> passes_filter flt g \<and> isPriorityFinding g)"
    "(PriorityAlert g \<in> set (msg @ alerts)) =
      (g \<in> set (findings res) \<and> passes_filter flt g \<and> isPriorityFinding g)" for g
    using in_alerts [of g] not_msg [of g] by simp_all
  from v show "\<exists>blocks. view complete (Some res) flt = Some blocks
          \<and> (f \<in> set (findings res) \<and> title_has_phrase f \<and> passes_filter flt f
               \<longrightarrow> PriorityAlert f \<in> set blocks)
          \<and> (\<forall>i j g s gs. i < length blocks \<and> j < length blocks
                \<and> blocks ! i = PriorityAlert g \<and> blocks ! j = SeverityGroup s gs \<longrightarrow> i < j)
          \<and> (\<forall>s gs g. SeverityGroup s gs \<in> set blocks \<and> g \<in> set gs
                \<longrightarrow> \<not> isPriorityFinding g)
          \<and> (\<forall>g. (PriorityAlert g \<in> set blocks) =
                (g \<in> set (findings res) \<and> passes_filter flt g \<and> isPriorityFinding g))
          \<and> (\<forall>s gs. SeverityGroup s gs \<in> set blocks \<longrightarrow>
                gs = filter (\<lambda>g. passes_filter flt g \<and> \<not> isPriorityFinding g \<and> severity g = s)
                       (findings res))
          \<and> (\<forall>g. g \<in> set (findings res) \<and> passes_filter flt g \<and> \<not> isPriorityFinding g \<longrightarrow>
                (\<exists>gs. SeverityGroup (severity g) gs \<in> set blocks \<and> g \<in> set gs))
          \<and> (\<forall>g. \<not> passes_filter flt g \<longrightarrow>
                PriorityAlert g \<notin> set blocks
                \<and> (\<forall>s gs. SeverityGroup s gs \<in> set blocks \<longrightarrow> g \<notin> set gs))"
  proof
    assume dev: "view = DevFindingsDisplay"
    define grouped where
      "grouped = groupFindingsBySeverity (filter (\<lambda>f. \<not> isPriorityFinding f) filtered)"
    have b: "view complete (Some res) flt = Some ((alerts @ msg) @ severity_groups grouped)"
      unfolding dev DevFindingsDisplay_blocks alerts_def msg_def grouped_def filtered_def ..
    have g: "\<not> isPriorityFinding g" if "g \<in> set (grouped s)" for s g
      using that by (simp add: grouped_def groupFindingsBySeverity_filter)
    have gr: "grouped s =
        filter (\<lambda>g. passes_filter flt g \<and> \<not> isPriorityFinding g \<and> severity g = s) (findings res)"
      for s
      by (simp add: grouped_def groupFindingsBySeverity_filter filtered_def applyFilter_filter)
    note layout = view_layout [OF not_groups(1) g]
    note content = view_content [OF not_groups(1) al(1) gr]
    show ?thesis
    proof (rule exI [where x = "(alerts @ msg) @ severity_groups grouped"], intro conjI impI)
      show "view complete (Some res) flt = Some ((alerts @ msg) @ severity_groups grouped)"
        by (rule b)
      show "PriorityAlert f \<in> set ((alerts @ msg) @ severity_groups grouped)"
        if "f \<in> set (findings res) \<and> title_has_phrase f \<and> passes_filter flt f"
        using shown [OF that] by simp
      show "\<forall>i j g s gs. i < length ((alerts @ msg) @ severity_groups grouped)
              \<and> j < length ((alerts @ msg) @ severity_groups grouped)
              \<and> ((alerts @ msg) @ severity_groups grouped) ! i = PriorityAlert g
              \<and> ((alerts @ msg) @ severity_groups grouped) ! j = SeverityGroup s gs \<longrightarrow> i < j"
        using layout by (rule conjunct1)
      show "\<forall>s gs g. SeverityGroup s gs \<in> set ((alerts @ msg) @ severity_groups grouped)
              \<and> g \<in> set gs \<longrightarrow> \<not> isPriorityFinding g"
        using layout by (rule conjunct2)
    qed (use content in blast)+
  next
    assume user: "view = UserFindingsDisplay"
    define grouped where
      "grouped = (\<lambda>s. filter (\<lambda>f. \<not> isPriorityFinding f) (groupFindingsBySeverity filtered s))"
    have b: "view complete (Some res) flt = Some ((msg @ alerts) @ severity_groups grouped)"
      unfolding user UserFindingsDisplay_blocks alerts_def msg_def grouped_def filtered_def ..
    have g: "\<not> isPriorityFinding g" if "g \<in> set (grouped s)" for s g
      using that by (simp add: grouped_def)
    have gr: "grouped s =
        filter (\<lambda>g. passes_filter flt g \<and> \<not> isPriorityFinding g \<and> severity g = s) (findings res)"
      for s
    proof -
      have "grouped s =
          filter (\<lambda>g. (passes_filter flt g \<and> severity g = s) \<and> \<not> isPriorityFinding g) (findings res)"
        by (simp add: grouped_def groupFindingsBySeverity_filter filtered_def applyFilter_filter)
      also have "\<dots> =
          filter (\<lambda>g. passes_filter flt g \<and> \<not> isPriorityFinding g \<and> severity g = s) (findings res)"
        by (rule filter_cong) auto
      finally show ?thesis .
    qed
    note layout = view_layout [OF not_groups(2) g]
    note content = view_content [OF not_groups(2) al(2) gr]
    show ?thesis
    proof (rule exI [where x = "(msg @ alerts) @ severity_groups grouped"], intro conjI impI)
      show "view complete (Some res) flt = Some ((msg @ alerts) @ severity_groups grouped)"
        by (rule b)
      show "PriorityAlert f \<in> set ((msg @ alerts) @ severity_groups grouped)"
        if "f \<in> set (findings res) \<and> title_has_phrase f \<and> passes_filter flt f"
        using shown [OF that] by simp
      show "\<forall>i j g s gs. i < length ((msg @ alerts) @ severity_groups grouped)
              \<and> j < length ((msg @ alerts) @ severity_groups grouped)
              \<and> ((msg @ alerts) @ severity_groups grouped) ! i = PriorityAlert g
              \<and> ((msg @ alerts) @ severity_groups grouped) ! j = SeverityGroup s gs \<longrightarrow> i < j"
        using layout by (rule conjunct1)
      show "\<forall>s gs g. SeverityGroup s gs \<in> set ((msg @ alerts) @ severity_groups grouped)
              \<and> g \<in> set gs \<longrightarrow> \<not> isPriorityFinding g"
        using layout by (rule conjunct2)
    qed (use content in blast)+
  qed
qed

theorem priority_findings_ahead_of_groups_witness:
  "title_has_phrase (sample_finding ''CLAWD-CONFIG-002'' ''Not installed'' INFO)
   \<and> passes_filter ALL_FILTER (sample_finding ''CLAWD-CONFIG-002'' ''Not installed'' INFO)
   \<and> isPriorityFinding (sample_finding ''CLAWD-CONFIG-002'' ''Not installed'' INFO)
   \<and> DevFindingsDisplay complete
       (Some (sample_result [sample_finding ''CLAWD-PORT-001'' ''Open port'' CRITICAL,
                             sample_finding ''CLAWD-CONFIG-002'' ''Not installed'' INFO]))
       ALL_FILTER =
       Some [PriorityAlert (sample_finding ''CLAWD-CONFIG-002'' ''Not installed'' INFO),
             SeverityGroup CRITICAL [sample_finding ''CLAWD-PORT-001'' ''Open port'' CRITICAL]]
   \<and> (\<exists>blocks. UserFindingsDisplay complete
         (Some (sample_result [sample_finding ''CLAWD-PORT-001'' ''Open port'' CRITICAL,
                               sample_finding ''CLAWD-CONFIG-002'' ''Not installed'' INFO]))
         ALL_FILTER = Some blocks
       \<and> PriorityAlert (sample_finding ''CLAWD-CONFIG-002'' ''Not installed'' INFO) \<in> set blocks)
   \<and> \<not> passes_filter (Only CRITICAL) (sample_finding ''CLAWD-CONFIG-002'' ''Not installed'' INFO)
   \<and> (\<exists>blocks. DevFindingsDisplay complete
         (Some (sample_result [sample_finding ''CLAWD-PORT-001'' ''Open port'' CRITICAL,
                               sample_finding ''CLAWD-CONFIG-002'' ''Not installed'' INFO]))
         (Only CRITICAL) = Some blocks
       \<and> PriorityAlert (sample_finding ''CLAWD-CONFIG-002'' ''Not installed'' INFO) \<notin> set blocks
       \<and> (\<forall>s gs. SeverityGroup s gs \<in> set blocks \<longrightarrow>
             sample_finding ''CLAWD-CONFIG-002'' ''Not installed'' INFO \<notin> set gs)
       \<and> SeverityGroup CRITICAL [sample_finding ''CLAWD-PORT-001'' ''Open port'' CRITICAL]
             \<in> set blocks)"
proof -
  define A where "A = sample_finding ''CLAWD-CONFIG-002'' ''Not installed'' INFO"
  define C where "C = sample_finding ''CLAWD-PORT-001'' ''Open port'' CRITICAL"
  have tA: "title_has_phrase A"
    by (simp add: A_def title_has_phrase_def sample_finding_def toLowerCase_def
        toLowerCase_char_def upper_letters_def lower_letters_def startsWith_def)
  have fA: "passes_filter ALL_FILTER A"
    by (simp add: passes_filter_def)
  have pC: "\<not> isPriorityFinding C"
    by (simp add: C_def isPriorityFinding_def sample_finding_def PRIORITY_FINDING_ID_def
        toLowerCase_def toLowerCase_char_def upper_letters_def lower_letters_def startsWith_def)
  have sev: "severity A = INFO" "severity C = CRITICAL"
    by (simp_all add: A_def C_def sample_finding_def)
  have nA: "\<not> passes_filter (Only CRITICAL) A" and fC: "passes_filter (Only CRITICAL) C"
    by (simp_all add: passes_filter_def sev)
  have fs: "findings (sample_result [C, A]) = [C, A]"
    by (simp add: sample_result_def)
  have mem: "A \<in> set (findings (sample_result [C, A]))"
    by (simp add: fs)
  from priority_findings_ahead_of_groups [of A] tA have pA: "isPriorityFinding A"
    by blast
  have d: "DevFindingsDisplay complete (Some (sample_result [C, A])) ALL_FILTER =
             Some [PriorityAlert A, SeverityGroup CRITICAL [C]]"
    unfolding DevFindingsDisplay_blocks
    by (simp add: applyFilter_def sample_result_def pA pC severity_groups_def SEVERITY_ORDER_def
        groupFindingsBySeverity_filter sev)
  from priority_findings_ahead_of_groups
         [of A UserFindingsDisplay "sample_result [C, A]" ALL_FILTER] tA fA mem
  have u: "\<exists>blocks. UserFindingsDisplay complete (Some (sample_result [C, A])) ALL_FILTER
             = Some blocks \<and> PriorityAlert A \<in> set blocks"
    by blast
  from priority_findings_ahead_of_groups
         [of A DevFindingsDisplay "sample_result [C, A]" "Only CRITICAL"]
  obtain blocks where
    b: "DevFindingsDisplay complete (Some (sample_result [C, A])) (Only CRITICAL) = Some blocks"
    and ex: "\<forall>g. \<not> passes_filter (Only CRITICAL) g \<longrightarrow>
                PriorityAlert g \<notin> set blocks
                \<and> (\<forall>s gs. SeverityGroup s gs \<in> set blocks \<longrightarrow> g \<notin> set gs)"
    and inc: "\<forall>g. g \<in> set (findings (sample_result [C, A])) \<and> passes_filter (Only CRITICAL) g
                  \<and> \<not> isPriorityFinding g \<longrightarrow>
                (\<exists>gs. SeverityGroup (severity g) gs \<in> set blocks \<and> g \<in> set gs)"
    and grp: "\<forall>s gs. SeverityGroup s gs \<in> set blocks \<longrightarrow>
                gs = filter (\<lambda>g. passes_filter (Only CRITICAL) g \<and> \<not> isPriorityFinding g
                                  \<and> severity g = s) (findings (sample_result [C, A]))"
    by blast
  from ex nA have x1: "PriorityAlert A \<notin> set blocks"
    and x2: "\<forall>s gs. SeverityGroup s gs \<in> set blocks \<longrightarrow> A \<notin> set gs"
    by blast+
  from inc fC pC obtain gs where g1: "SeverityGroup (severity C) gs \<in> set blocks"
    by (auto simp: fs)
  with grp have "gs = filter (\<lambda>g. passes_filter (Only CRITICAL) g \<and> \<not> isPriorityFinding g
                                  \<and> severity g = severity C) (findings (sample_result [C, A]))"
    by blast
  then have "gs = [C]"
    by (simp add: fs fC pC nA)
  with g1 have x3: "SeverityGroup CRITICAL [C] \<in> set blocks"
    by (simp add: sev)
  from b x1 x2 x3 have o: "\<exists>blocks. DevFindingsDisplay complete (Some (sample_result [C, A]))
         (Only CRITICAL) = Some blocks
       \<and> PriorityAlert A \<notin> set blocks
       \<and> (\<forall>s gs. SeverityGroup s gs \<in> set blocks \<longrightarrow> A \<notin> set gs)
       \<and> SeverityGroup CRITICAL [C] \<in> set blocks"
    by blast
  from tA fA pA d u nA o show ?thesis
    unfolding A_def C_def by blast
qed

section \<open>Properties of the risk engine\<close>

lemma calculate_risk_formula:
  "calculate_risk t =
     min (cvss_score t * (if is_publicly_exposed t then 1.2 else 1)
            * (if requires_no_auth t then 1.1 else 1)) 10"
  by (simp add: calculate_risk_def Let_def)

lemma top_finding_mem: "top_finding best fs \<in> set (best # fs)"
  by (induction fs arbitrary: best) (auto split: if_splits)

lemma top_finding_ge_best: "cvss_score best \<le> cvss_score (top_finding best fs)"
proof (induction fs arbitrary: best)
  case Nil
  then show ?case by simp
next
  case (Cons f fs)
  have "cvss_score best \<le> cvss_score (if cvss_score f > cvss_score best then f else best)"
    by simp
  also have "\<dots> \<le> cvss_score (top_finding (if cvss_score f > cvss_score best then f else best) fs)"
    by (rule Cons.IH)
  finally show ?case by simp
qed

lemma top_finding_ge_all:
  "g \<in> set (best # fs) \<Longrightarrow> cvss_score g \<le> cvss_score (top_finding best fs)"
proof (induction fs arbitrary: best)
  case Nil
  then show ?case by simp
next
  case (Cons f fs)
  let ?b = "if cvss_score f > cvss_score best then f else best"
  from Cons.prems consider "g = best" | "g = f" | "g \<in> set fs" by auto
  then show ?case
  proof cases
    case 1
    then show ?thesis using top_finding_ge_best [of best "f # fs"] by simp
  next
    case 2
    have "cvss_score f \<le> cvss_score ?b" by simp
    also have "\<dots> \<le> cvss_score (top_finding ?b fs)" by (rule top_finding_ge_best)
    finally show ?thesis using 2 by simp
  next
    case 3
    then have "g \<in> set (?b # fs)" by simp
    from Cons.IH [OF this] show ?thesis by simp
  qed
qed

lemma top_finding_max:
  "cvss_score (top_finding best fs) = Max (cvss_score ` set (best # fs))"
proof (rule sym, rule Max_eqI)
  show "finite (cvss_score ` set (best # fs))" by simp
  show "y \<le> cvss_score (top_finding best fs)" if "y \<in> cvss_score ` set (best # fs)" for y
    using that top_finding_ge_all by blast
  show "cvss_score (top_finding best fs) \<in> cvss_score ` set (best # fs)"
    using top_finding_mem by blast
qed

lemma risk_level_of_thresholds:
  "risk_level_of score =
     (if 9 \<le> score then RISK_CRITICAL
      else if 7 \<le> score then RISK_HIGH
      else if 4 \<le> score then RISK_MEDIUM
      else if 0 < score then RISK_LOW
      else SAFE)"
  by (simp add: risk_level_of_def)

lemma risk_engine_level: "snd (risk_engine fs) = risk_level_of (fst (risk_engine fs))"
  by (cases fs) (simp_all add: risk_engine_def Let_def risk_level_of_def)

text \<open>
  Claim C1. The risk engine maps the empty list to score 0.0 and level SAFE; for a
  non-empty list the score is the maximal \<open>cvssScore\<close>, multiplied by 1.2 when the
  finding that carries it is publicly exposed and by 1.1 when it requires no
  authentication, clamped to the interval from 0.0 to 10.0; the level follows from the
  score by the thresholds 9.0, 7.0, 4.0 and 0.0; a single finding of score 8.0 with
  both flags gives 10.0 and CRITICAL, one of score 9.5 with no flag gives 9.5 and
  CRITICAL.
\<close>

theorem risk_engine_contract:
  "risk_engine [] = (0, SAFE)
   \<and> (fs \<noteq> [] \<longrightarrow>
        (\<exists>t \<in> set fs. cvss_score t = Max (cvss_score ` set fs)
           \<and> fst (risk_engine fs) =
               max 0 (min 10 (cvss_score t * (if is_publicly_exposed t then 1.2 else 1)
                                * (if requires_no_auth t then 1.1 else 1)))))
   \<and> 0 \<le> fst (risk_engine fs) \<and> fst (risk_engine fs) \<le> 10
   \<and> snd (risk_engine fs) =
       (if 9 \<le> fst (risk_engine fs) then RISK_CRITICAL
        else if 7 \<le> fst (risk_engine fs) then RISK_HIGH
        else if 4 \<le> fst (risk_engine fs) then RISK_MEDIUM
        else if 0 < fst (risk_engine fs) then RISK_LOW
        else SAFE)
   \<and> risk_engine [\<lparr>cvss_score = 8.0, is_publicly_exposed = True, requires_no_auth = True\<rparr>]
       = (10.0, RISK_CRITICAL)
   \<and> risk_engine [\<lparr>cvss_score = 9.5, is_publicly_exposed = False, requires_no_auth = False\<rparr>]
       = (9.5, RISK_CRITICAL)"
proof (intro conjI impI)
  show "risk_engine [] = (0, SAFE)"
    by (simp add: risk_engine_def)
  show "\<exists>t \<in> set fs. cvss_score t = Max (cvss_score ` set fs)
           \<and> fst (risk_engine fs) =
               max 0 (min 10 (cvss_score t * (if is_publicly_exposed t then 1.2 else 1)
                                * (if requires_no_auth t then 1.1 else 1)))"
    if "fs \<noteq> []"
  proof -
    from that obtain f rest where fs: "fs = f # rest" by (cases fs) auto
    define t where "t = top_finding f rest"
    have "t \<in> set fs" unfolding t_def fs by (rule top_finding_mem)
    moreover have "cvss_score t = Max (cvss_score ` set fs)"
      unfolding t_def fs by (rule top_finding_max)
    moreover have "fst (risk_engine fs) =
               max 0 (min 10 (cvss_score t * (if is_publicly_exposed t then 1.2 else 1)
                                * (if requires_no_auth t then 1.1 else 1)))"
      unfolding fs by (simp add: risk_engine_def Let_def calculate_risk_formula t_def)
    ultimately show ?thesis by blast
  qed
  show "0 \<le> fst (risk_engine fs)"
    by (cases fs) (simp_all add: risk_engine_def Let_def)
  show "fst (risk_engine fs) \<le> 10"
    by (cases fs) (simp_all add: risk_engine_def Let_def)
  show "snd (risk_engine fs) =
       (if 9 \<le> fst (risk_engine fs) then RISK_CRITICAL
        else if 7 \<le> fst (risk_engine fs) then RISK_HIGH
        else if 4 \<le> fst (risk_engine fs) then RISK_MEDIUM
        else if 0 < fst (risk_engine fs) then RISK_LOW
        else SAFE)"
    unfolding risk_engine_level risk_level_of_thresholds ..
  show "risk_engine [\<lparr>cvss_score = 8.0, is_publicly_exposed = True, requires_no_auth = True\<rparr>]
       = (10.0, RISK_CRITICAL)"
    by (simp add: risk_engine_def calculate_risk_def risk_level_of_def Let_def)
  show "risk_engine [\<lparr>cvss_score = 9.5, is_publicly_exposed = False, requires_no_auth = False\<rparr>]
       = (9.5, RISK_CRITICAL)"
    by (simp add: risk_engine_def calculate_risk_def risk_level_of_def Let_def)
qed

theorem risk_engine_contract_witness:
  "[\<lparr>cvss_score = 5.0, is_publicly_exposed = True, requires_no_auth = False\<rparr>,
    \<lparr>cvss_score = 3.0, is_publicly_exposed = True, requires_no_auth = True\<rparr>] \<noteq> []
   \<and> fst (risk_engine
       [\<lparr>cvss_score = 5.0, is_publicly_exposed = True, requires_no_auth = False\<rparr>,
        \<lparr>cvss_score = 3.0, is_publicly_exposed = True, requires_no_auth = True\<rparr>]) = 6
   \<and> snd (risk_engine
       [\<lparr>cvss_score = 5.0, is_publicly_exposed = True, requires_no_auth = False\<rparr>,
        \<lparr>cvss_score = 3.0, is_publicly_exposed = True, requires_no_auth = True\<rparr>]) = RISK_MEDIUM"
proof -
  define fs where
    "fs = [\<lparr>cvss_score = 5.0, is_publicly_exposed = True, requires_no_auth = False\<rparr>,
           \<lparr>cvss_score = 3.0, is_publicly_exposed = True, requires_no_auth = True\<rparr>]"
  have ne: "fs \<noteq> []" by (simp add: fs_def)
  have mx: "Max (cvss_score ` set fs) = 5" by (simp add: fs_def)
  from risk_engine_contract [of fs] ne obtain t where
    t: "t \<in> set fs" "cvss_score t = Max (cvss_score ` set fs)"
    "fst (risk_engine fs) =
       max 0 (min 10 (cvss_score t * (if is_publicly_exposed t then 1.2 else 1)
                        * (if requires_no_auth t then 1.1 else 1)))"
    by blast
  from t(1,2) mx have "t = \<lparr>cvss_score = 5.0, is_publicly_exposed = True, requires_no_auth = False\<rparr>"
    by (auto simp: fs_def)
  with t(3) have s: "fst (risk_engine fs) = 6" by simp
  from risk_engine_contract [of fs] have
    "snd (risk_engine fs) =
       (if 9 \<le> fst (risk_engine fs) then RISK_CRITICAL
        else if 7 \<le> fst (risk_engine fs) then RISK_HIGH
        else if 4 \<le> fst (risk_engine fs) then RISK_MEDIUM
        else if 0 < fst (risk_engine fs) then RISK_LOW
        else SAFE)"
    by blast
  with s have l: "snd (risk_engine fs) = RISK_MEDIUM" by simp
  from ne s l show ?thesis unfolding fs_def by blast
qed

end
